theory Spec2Isabelle
  imports Main "HOL-Library.Word"
begin

section \<open>The C boundary of the zvec collection engine\<close>

text \<open>
  The wrapper (\<^verbatim>\<open>zvec-c-wrapper/src/*.cpp\<close>) is a layer of C functions in front of the
  C++ engine. The embedding follows the C calling convention of the source:
  \<^item> a pointer argument that the code tests against null is an \<open>option\<close>: \<open>None\<close> is the
    null pointer, \<open>Some x\<close> a valid pointer to \<open>x\<close>; a document handle is \<open>Some a\<close> for an
    address \<open>a\<close> of the heap defined below;
  \<^item> an array argument is a pointer and a count of its own: reading \<open>count\<close> elements of an
    array that holds fewer is a read out of bounds;
  \<^item> an out-parameter is such a pointer too: the function returns what the cell holds after
    the call;
  \<^item> a call that dereferences a null pointer, reads out of bounds or builds a
    \<^verbatim>\<open>std::string\<close> from a null pointer does not return: its outcome is \<open>Crash\<close>;
  \<^item> \<^verbatim>\<open>size_t\<close> counts are natural numbers; \<^verbatim>\<open>malloc\<close>, \<^verbatim>\<open>strdup\<close> and \<^verbatim>\<open>new\<close> are taken to
    succeed;
  \<^item> \<^verbatim>\<open>float\<close> and \<^verbatim>\<open>double\<close> values are only ever copied by this layer, so they are
    represented by their 32 and 64 bit patterns.
\<close>

datatype 'a outcome = Crash | Ret 'a

type_synonym c_float = "32 word"
type_synonym c_double = "64 word"

definition read_array :: "'a list \<Rightarrow> nat \<Rightarrow> 'a list outcome" where
  \<comment> \<open>the first \<open>n\<close> elements behind a non-null array pointer\<close>
  "read_array xs n = (if n \<le> length xs then Ret (take n xs) else Crash)"

subsection \<open>Status (\<^verbatim>\<open>zvec_c.h\<close>, \<^verbatim>\<open>zvec_c_internal.h\<close>, \<^verbatim>\<open>status.cpp\<close>)\<close>

text \<open>The enum \<^verbatim>\<open>zvec_status_code_t\<close>; \<^verbatim>\<open>to_c_status\<close> casts the engine's code to it through
  \<^verbatim>\<open>int\<close>, so a code is an integer.\<close>

definition ZVEC_STATUS_OK :: int where "ZVEC_STATUS_OK = 0"
definition ZVEC_STATUS_NOT_FOUND :: int where "ZVEC_STATUS_NOT_FOUND = 1"
definition ZVEC_STATUS_ALREADY_EXISTS :: int where "ZVEC_STATUS_ALREADY_EXISTS = 2"
definition ZVEC_STATUS_INVALID_ARGUMENT :: int where "ZVEC_STATUS_INVALID_ARGUMENT = 3"
definition ZVEC_STATUS_NOT_SUPPORTED :: int where "ZVEC_STATUS_NOT_SUPPORTED = 4"
definition ZVEC_STATUS_INTERNAL_ERROR :: int where "ZVEC_STATUS_INTERNAL_ERROR = 5"
definition ZVEC_STATUS_PERMISSION_DENIED :: int where "ZVEC_STATUS_PERMISSION_DENIED = 6"
definition ZVEC_STATUS_FAILED_PRECONDITION :: int where "ZVEC_STATUS_FAILED_PRECONDITION = 7"
definition ZVEC_STATUS_UNKNOWN :: int where "ZVEC_STATUS_UNKNOWN = 8"

record zvec_status =
  code :: int
  message :: "string option"

text \<open>The engine's \<^verbatim>\<open>zvec::Status\<close>, as far as the wrapper reads it: \<^verbatim>\<open>code()\<close> and
  \<^verbatim>\<open>message()\<close>.\<close>

record Status =
  status_code :: int
  status_message :: string

definition ok_status :: zvec_status where
  "ok_status = \<lparr>code = ZVEC_STATUS_OK, message = None\<rparr>"

definition to_c_status :: "Status \<Rightarrow> zvec_status" where
  "to_c_status status =
     \<lparr>code = status_code status,
      message = (if status_message status = [] then None else Some (status_message status))\<rparr>"

definition invalid_argument :: "string \<Rightarrow> zvec_status" where
  \<comment> \<open>the block \<^verbatim>\<open>s.code = ZVEC_STATUS_INVALID_ARGUMENT; s.message = strdup(msg); return s;\<close>\<close>
  "invalid_argument msg = \<lparr>code = ZVEC_STATUS_INVALID_ARGUMENT, message = Some msg\<rparr>"

definition zvec_status_is_ok :: "zvec_status option \<Rightarrow> bool" where
  "zvec_status_is_ok status = (status \<noteq> None \<and> code (the status) = ZVEC_STATUS_OK)"

subsection \<open>The engine's document\<close>

text \<open>
  Modelled from the spec: the class \<^verbatim>\<open>zvec::Doc\<close> (\<^verbatim>\<open>zvec/db/doc.h\<close>) belongs to the engine
  and has no source here. The spec's data model gives a document a primary key, a numeric
  id, a score and a mapping from field names to tagged values, one tag for each C++ type
  that \<^verbatim>\<open>set\<close> is called with; \<^verbatim>\<open>set\<close> overwrites unconditionally, \<^verbatim>\<open>get\<close> returns nothing on an
  absent field or on another tag, \<^verbatim>\<open>has\<close> tells whether an entry exists (null included).
\<close>

datatype Value =
    VNull
  | VBool bool
  | VInt32 "32 word"
  | VInt64 "64 word"
  | VUInt32 "32 word"
  | VUInt64 "64 word"
  | VFloat c_float
  | VDouble c_double
  | VString string
  | VecFloat "c_float list"
  | VecDouble "c_double list"
  | VecInt8 "8 word list"
  | VecInt16 "16 word list"
  | VecInt32 "32 word list"
  | VecInt64 "64 word list"
  | VecString "string list"
  | SparseFp32 "32 word list" "c_float list"

record Doc =
  doc_pk :: string
  doc_doc_id :: "64 word"
  doc_score :: c_float
  doc_fields :: "string \<rightharpoonup> Value"


definition Doc_set :: "Doc \<Rightarrow> string \<Rightarrow> Value \<Rightarrow> Doc" where
  "Doc_set d f v = d\<lparr>doc_fields := (doc_fields d)(f \<mapsto> v)\<rparr>"



definition Doc_has_value :: "Doc \<Rightarrow> string \<Rightarrow> bool" where
  "Doc_has_value d f = (doc_fields d f \<noteq> None \<and> doc_fields d f \<noteq> Some VNull)"

definition Doc_is_null :: "Doc \<Rightarrow> string \<Rightarrow> bool" where
  "Doc_is_null d f = (doc_fields d f = Some VNull)"







definition Doc_get_vector_float :: "Doc \<Rightarrow> string \<Rightarrow> c_float list option" where
  "Doc_get_vector_float d f = (case doc_fields d f of Some (VecFloat x) \<Rightarrow> Some x | _ \<Rightarrow> None)"

subsection \<open>Calls into the engine\<close>

text \<open>Every function of the wrapper returns, beside its results, the calls it made into the
  engine, in order: a function that returns before reaching the engine returns no call.\<close>

record CollectionStats =
  stats_doc_count :: "64 word"

record CollectionOptions =
  read_only :: bool
  enable_mmap :: bool
  max_buffer_size :: "32 word"

record CollectionSchema =
  schema_name :: string
  schema_fields :: "string list"

datatype QueryParams = HnswQueryParams int | IVFQueryParams int

text \<open>\<^verbatim>\<open>zvec::VectorQuery\<close> and \<^verbatim>\<open>zvec::GroupByVectorQuery\<close>, with the members that
  \<^verbatim>\<open>query.cpp\<close> assigns. The three buffers are byte strings filled by \<^verbatim>\<open>memcpy\<close> from arrays
  of 4-byte elements; a buffer is represented by the elements copied into it.\<close>

record VectorQuery =
  q_field_name :: string
  q_topk :: int
  q_filter :: string
  q_include_vector :: bool
  q_include_doc_id :: bool
  q_output_fields :: "string list"
  q_query_params :: "QueryParams option"
  q_query_vector :: "c_float list"
  q_query_sparse_indices :: "32 word list"
  q_query_sparse_values :: "c_float list"

record GroupByVectorQuery =
  g_field_name :: string
  g_group_by_field_name :: string
  g_group_count :: "32 word"
  g_group_topk :: "32 word"
  g_filter :: string
  g_output_fields :: "string list"
  g_query_vector :: "c_float list"

record GroupResult =
  group_by_value :: string
  group_docs :: "Doc list"

datatype engine_call =
    Call_Doc_set string Value
  | Call_Doc_set_null string
  | Call_Path
  | Call_Schema
  | Call_Options
  | Call_Stats
  | Call_Insert "Doc list"
  | Call_Upsert "Doc list"
  | Call_Update "Doc list"
  | Call_Delete "string list"
  | Call_Query VectorQuery
  | Call_GroupByQuery GroupByVectorQuery
  | Call_Fetch "string list"

text \<open>The engine's \<^verbatim>\<open>zvec::Collection\<close> is a collaborator without source here. It is a
  parameter of the model: a collection is given by what its methods answer, an error
  \<^verbatim>\<open>Status\<close> (\<open>Inl\<close>) or a value (\<open>Inr\<close>), as \<^verbatim>\<open>tl::expected\<close> does. \<^verbatim>\<open>Query\<close> answers shared
  pointers to documents, \<^verbatim>\<open>GroupByQuery\<close> groups of documents by value, \<^verbatim>\<open>Fetch\<close> a map from
  keys to shared pointers, given in its iteration order.\<close>

record Collection =
  Path :: "Status + string"
  Schema :: "Status + CollectionSchema"
  Options :: "Status + CollectionOptions"
  Stats :: "Status + CollectionStats"
  Insert :: "Doc list \<Rightarrow> Status + Status list"
  Upsert :: "Doc list \<Rightarrow> Status + Status list"
  Update :: "Doc list \<Rightarrow> Status + Status list"
  Delete :: "string list \<Rightarrow> Status + Status list"
  Query :: "VectorQuery \<Rightarrow> Status + Doc option list"
  GroupByQuery :: "GroupByVectorQuery \<Rightarrow> Status + GroupResult list"
  Fetch :: "string list \<Rightarrow> Status + (string \<times> Doc option) list"

subsection \<open>Handles and result structures (\<^verbatim>\<open>zvec_c_internal.h\<close>, \<^verbatim>\<open>zvec_c.h\<close>)\<close>

text \<open>\<^verbatim>\<open>struct zvec_doc\<close>: the shared pointer to the engine's document (\<open>None\<close> when it is
  empty) and the ownership flag; the \<^verbatim>\<open>string_cache\<close> member is never used. The members of
  the other structures carry a prefix, since several structures of the header name their
  members \<^verbatim>\<open>ptr\<close>, \<^verbatim>\<open>docs\<close> and \<^verbatim>\<open>count\<close>.\<close>

record zvec_doc =
  ptr :: "Doc option"
  owned :: bool

record zvec_collection =
  coll_ptr :: "Collection option"

record zvec_collection_schema =
  schema_ptr :: "CollectionSchema option"
  schema_owned :: bool

record zvec_collection_options =
  opts :: CollectionOptions

record zvec_collection_stats =
  doc_count :: "64 word"
  memory_usage :: "64 word"
  json_details :: "string option"

record zvec_vector_query =
  query :: VectorQuery

record zvec_group_by_vector_query =
  gquery :: GroupByVectorQuery

text \<open>Document handles are objects on the C++ heap, created by \<^verbatim>\<open>new\<close> and destroyed by
  \<^verbatim>\<open>delete\<close>: a handle is an address, \<open>live\<close> holds the objects that exist, and \<open>fresh\<close> is the
  address the next \<^verbatim>\<open>new\<close> returns. Reading through an address that is not live is a use
  after free. Arrays of handles are the values of the structures that hold them.\<close>

record heap =
  live :: "nat \<rightharpoonup> zvec_doc"
  fresh :: nat

definition new_zvec_doc :: "zvec_doc \<Rightarrow> heap \<Rightarrow> nat \<times> heap" where
  "new_zvec_doc w h = (fresh h, h\<lparr>live := (live h)(fresh h \<mapsto> w), fresh := Suc (fresh h)\<rparr>)"

definition delete_zvec_doc :: "nat \<Rightarrow> heap \<Rightarrow> heap" where
  "delete_zvec_doc a h = h\<lparr>live := (live h)(a := None)\<rparr>"

definition store :: "heap \<Rightarrow> nat \<Rightarrow> zvec_doc \<Rightarrow> heap" where
  \<comment> \<open>assignment to a member of the object at \<open>a\<close>\<close>
  "store h a w = h\<lparr>live := (live h)(a \<mapsto> w)\<rparr>"

record zvec_doc_list =
  dl_docs :: "nat option list option"
  dl_count :: nat

record zvec_write_results =
  wr_statuses :: "zvec_status list option"
  wr_count :: nat

record zvec_doc_map =
  dm_keys :: "string option list option"
  dm_docs :: "nat option list option"
  dm_count :: nat

record zvec_group_result =
  gr_group_by_value :: "string option"
  gr_docs :: zvec_doc_list

record zvec_group_results =
  grs_groups :: "zvec_group_result list option"
  grs_count :: nat

subsection \<open>Documents (\<^verbatim>\<open>doc.cpp\<close>)\<close>


definition zvec_doc_free :: "heap \<Rightarrow> nat option \<Rightarrow> heap outcome" where
  "zvec_doc_free h doc =
     (case doc of
        None \<Rightarrow> Ret h
      | Some a \<Rightarrow>
          (case live h a of
             None \<Rightarrow> Crash
           | Some w \<Rightarrow> if owned w then Ret (delete_zvec_doc a h) else Ret h))"

text \<open>A setter returns its status, the heap after the call and the calls made into the
  engine. \<^verbatim>\<open>set_field_helper\<close> receives the raw \<^verbatim>\<open>zvec::Doc*\<close> and returns the document behind it
  after the call.\<close>

type_synonym set_result = "(zvec_status \<times> heap \<times> engine_call list) outcome"

definition set_field_helper ::
  "Doc option \<Rightarrow> string option \<Rightarrow> Value \<Rightarrow> zvec_status \<times> Doc option \<times> engine_call list" where
  "set_field_helper doc field v =
     (if doc = None \<or> field = None
      then (invalid_argument ''Invalid doc or field'', doc, [])
      else (ok_status, Some (Doc_set (the doc) (the field) v), [Call_Doc_set (the field) v]))"

definition scalar_setter :: "heap \<Rightarrow> nat option \<Rightarrow> string option \<Rightarrow> Value \<Rightarrow> set_result" where
  \<comment> \<open>the body \<^verbatim>\<open>return set_field_helper(doc->ptr.get(), field, value);\<close> of the seven numeric
     setters: \<^verbatim>\<open>doc->ptr\<close> is read before any test\<close>
  "scalar_setter h doc field v =
     (case doc of
        None \<Rightarrow> Crash
      | Some a \<Rightarrow>
          (case live h a of
             None \<Rightarrow> Crash
           | Some w \<Rightarrow>
               (case set_field_helper (ptr w) field v of
                  (s, d, calls) \<Rightarrow> Ret (s, store h a (w\<lparr>ptr := d\<rparr>), calls))))"

definition zvec_doc_set_bool :: "heap \<Rightarrow> nat option \<Rightarrow> string option \<Rightarrow> bool \<Rightarrow> set_result" where
  "zvec_doc_set_bool h doc field value = scalar_setter h doc field (VBool value)"

definition zvec_doc_set_int32 :: "heap \<Rightarrow> nat option \<Rightarrow> string option \<Rightarrow> 32 word \<Rightarrow> set_result" where
  "zvec_doc_set_int32 h doc field value = scalar_setter h doc field (VInt32 value)"

definition zvec_doc_set_int64 :: "heap \<Rightarrow> nat option \<Rightarrow> string option \<Rightarrow> 64 word \<Rightarrow> set_result" where
  "zvec_doc_set_int64 h doc field value = scalar_setter h doc field (VInt64 value)"

definition zvec_doc_set_uint32 :: "heap \<Rightarrow> nat option \<Rightarrow> string option \<Rightarrow> 32 word \<Rightarrow> set_result" where
  "zvec_doc_set_uint32 h doc field value = scalar_setter h doc field (VUInt32 value)"

definition zvec_doc_set_uint64 :: "heap \<Rightarrow> nat option \<Rightarrow> string option \<Rightarrow> 64 word \<Rightarrow> set_result" where
  "zvec_doc_set_uint64 h doc field value = scalar_setter h doc field (VUInt64 value)"

definition zvec_doc_set_float :: "heap \<Rightarrow> nat option \<Rightarrow> string option \<Rightarrow> c_float \<Rightarrow> set_result" where
  "zvec_doc_set_float h doc field value = scalar_setter h doc field (VFloat value)"

definition zvec_doc_set_double :: "heap \<Rightarrow> nat option \<Rightarrow> string option \<Rightarrow> c_double \<Rightarrow> set_result" where
  "zvec_doc_set_double h doc field value = scalar_setter h doc field (VDouble value)"

definition set_checked :: "heap \<Rightarrow> nat \<Rightarrow> zvec_doc \<Rightarrow> string \<Rightarrow> Value \<Rightarrow> set_result" where
  \<comment> \<open>\<^verbatim>\<open>doc->ptr->set(std::string(field), value); return ok_status();\<close> once the arguments passed
     the test\<close>
  "set_checked h a w f v =
     Ret (ok_status, store h a (w\<lparr>ptr := Some (Doc_set (the (ptr w)) f v)\<rparr>), [Call_Doc_set f v])"

definition zvec_doc_set_string ::
  "heap \<Rightarrow> nat option \<Rightarrow> string option \<Rightarrow> string option \<Rightarrow> set_result" where
  "zvec_doc_set_string h doc field value =
     (case doc of
        None \<Rightarrow> Ret (invalid_argument ''Invalid doc or field'', h, [])
      | Some a \<Rightarrow>
          (case live h a of
             None \<Rightarrow> Crash
           | Some w \<Rightarrow>
               if ptr w = None \<or> field = None
               then Ret (invalid_argument ''Invalid doc or field'', h, [])
               else (case value of
                       None \<Rightarrow> Crash
                     | Some s \<Rightarrow> set_checked h a w (the field) (VString s))))"













fun cstrings :: "string option list \<Rightarrow> string list outcome" where
  \<comment> \<open>the loop \<^verbatim>\<open>vec.emplace_back(data[i])\<close>: a \<^verbatim>\<open>std::string\<close> from each \<^verbatim>\<open>char*\<close> of the array\<close>
  "cstrings [] = Ret []"
| "cstrings (None # ps) = Crash"
| "cstrings (Some s # ps) = (case cstrings ps of Crash \<Rightarrow> Crash | Ret ss \<Rightarrow> Ret (s # ss))"


definition zvec_doc_set_sparse_vector_fp32 ::
  "heap \<Rightarrow> nat option \<Rightarrow> string option \<Rightarrow> 32 word list option \<Rightarrow> nat
     \<Rightarrow> c_float list option \<Rightarrow> nat \<Rightarrow> set_result" where
  "zvec_doc_set_sparse_vector_fp32 h doc field indices indices_count values values_count =
     (case doc of
        None \<Rightarrow> Ret (invalid_argument ''Invalid arguments'', h, [])
      | Some a \<Rightarrow>
          (case live h a of
             None \<Rightarrow> Crash
           | Some w \<Rightarrow>
               if ptr w = None \<or> field = None \<or> indices = None \<or> values = None
                  \<or> indices_count \<noteq> values_count
               then Ret (invalid_argument ''Invalid arguments'', h, [])
               else (case read_array (the indices) indices_count of
                       Crash \<Rightarrow> Crash
                     | Ret idx \<Rightarrow>
                         (case read_array (the values) values_count of
                            Crash \<Rightarrow> Crash
                          | Ret vals \<Rightarrow> set_checked h a w (the field) (SparseFp32 idx vals)))))"







text \<open>A \<^verbatim>\<open>const char*\<close> held by a cell: null, a pointer to a string that exists, or a pointer
  to storage that was destroyed. \<^verbatim>\<open>zvec_doc_get_string\<close> takes \<^verbatim>\<open>auto result =
  doc->ptr->get<std::string>(...)\<close>, a copy local to the function, and stores
  \<^verbatim>\<open>result.value().c_str()\<close>, a pointer into that copy; the copy is destroyed when the function
  returns (the \<^verbatim>\<open>string_cache\<close> member of the handle is not used), so the pointer the caller
  finds in the cell dangles.\<close>

datatype char_ptr = Null_ptr | Chars string | Dangling


text \<open>\<^verbatim>\<open>out_data\<close> is the caller's buffer (\<open>None\<close> for a null pointer); \<^verbatim>\<open>memcpy\<close> overwrites its
  first \<open>copy_len\<close> elements and writes out of bounds when the buffer is shorter. The result
  is the returned count and the buffer after the call.\<close>

definition zvec_doc_get_vector_fp32 ::
  "heap \<Rightarrow> nat option \<Rightarrow> string option \<Rightarrow> c_float list option \<Rightarrow> nat
     \<Rightarrow> (nat \<times> c_float list option) outcome" where
  "zvec_doc_get_vector_fp32 h doc field out_data max_len =
     (case doc of
        None \<Rightarrow> Ret (0, out_data)
      | Some a \<Rightarrow>
          (case live h a of
             None \<Rightarrow> Crash
           | Some w \<Rightarrow>
               if ptr w \<noteq> None \<and> field \<noteq> None \<and> out_data \<noteq> None \<and> max_len > 0
               then (case Doc_get_vector_float (the (ptr w)) (the field) of
                       Some vec \<Rightarrow>
                         (let copy_len = min (length vec) max_len in
                          if copy_len \<le> length (the out_data)
                          then Ret (length vec,
                                    Some (take copy_len vec @ drop copy_len (the out_data)))
                          else Crash)
                     | None \<Rightarrow> Ret (0, out_data))
               else Ret (0, out_data)))"

definition field_info :: "(Doc \<Rightarrow> string \<Rightarrow> bool) \<Rightarrow> heap \<Rightarrow> nat option \<Rightarrow> string option \<Rightarrow> bool outcome" where
  \<comment> \<open>\<^verbatim>\<open>return doc && doc->ptr && field && doc->ptr->p(std::string(field));\<close>\<close>
  "field_info p h doc field =
     (case doc of
        None \<Rightarrow> Ret False
      | Some a \<Rightarrow>
          (case live h a of
             None \<Rightarrow> Crash
           | Some w \<Rightarrow> Ret (ptr w \<noteq> None \<and> field \<noteq> None \<and> p (the (ptr w)) (the field))))"


definition zvec_doc_has_value :: "heap \<Rightarrow> nat option \<Rightarrow> string option \<Rightarrow> bool outcome" where
  "zvec_doc_has_value = field_info Doc_has_value"

definition zvec_doc_is_null :: "heap \<Rightarrow> nat option \<Rightarrow> string option \<Rightarrow> bool outcome" where
  "zvec_doc_is_null = field_info Doc_is_null"

text \<open>\<^verbatim>\<open>zvec_doc_list_free\<close>: the loop over \<^verbatim>\<open>list->docs[i]\<close>, then the array is freed and the
  structure reset. The result is the heap and the structure after the call.\<close>

fun free_docs :: "heap \<Rightarrow> nat option list \<Rightarrow> heap outcome" where
  "free_docs h [] = Ret h"
| "free_docs h (None # ds) = free_docs h ds"
| "free_docs h (Some a # ds) =
     (case live h a of
        None \<Rightarrow> Crash
      | Some w \<Rightarrow>
          (case zvec_doc_free (store h a (w\<lparr>owned := False\<rparr>)) (Some a) of
             Crash \<Rightarrow> Crash
           | Ret h' \<Rightarrow> free_docs h' ds))"

definition read_handles :: "nat option list option \<Rightarrow> nat \<Rightarrow> nat option list outcome" where
  \<comment> \<open>the elements \<^verbatim>\<open>docs[0]\<close>, ..., \<^verbatim>\<open>docs[count - 1]\<close> that a loop \<^verbatim>\<open>for (i = 0; i < count; i++)\<close>
     reads: none when \<open>count\<close> is 0, whatever the pointer\<close>
  "read_handles docs count =
     (if count = 0 then Ret []
      else (case docs of None \<Rightarrow> Crash | Some ds \<Rightarrow> read_array ds count))"

definition zvec_doc_list_free :: "heap \<Rightarrow> zvec_doc_list option \<Rightarrow> (heap \<times> zvec_doc_list option) outcome" where
  "zvec_doc_list_free h list =
     (case list of
        None \<Rightarrow> Ret (h, None)
      | Some l \<Rightarrow>
          (case read_handles (dl_docs l) (dl_count l) of
             Crash \<Rightarrow> Crash
           | Ret ds \<Rightarrow>
               (case free_docs h ds of
                  Crash \<Rightarrow> Crash
                | Ret h' \<Rightarrow> Ret (h', Some \<lparr>dl_docs = None, dl_count = 0\<rparr>))))"

subsection \<open>Queries (\<^verbatim>\<open>query.cpp\<close>)\<close>

text \<open>The setter assigns members of the query structure and calls no method of the engine.
  It returns the status and the query after the call.\<close>

definition zvec_vector_query_set_sparse_vector_fp32 ::
  "zvec_vector_query option \<Rightarrow> 32 word list option \<Rightarrow> nat \<Rightarrow> c_float list option \<Rightarrow> nat
     \<Rightarrow> (zvec_status \<times> zvec_vector_query option) outcome" where
  "zvec_vector_query_set_sparse_vector_fp32 q indices indices_count values values_count =
     (if q = None \<or> indices = None \<or> values = None \<or> indices_count \<noteq> values_count
      then Ret (invalid_argument ''Invalid arguments'', q)
      else (case read_array (the indices) indices_count of
              Crash \<Rightarrow> Crash
            | Ret idx_buf \<Rightarrow>
                (case read_array (the values) values_count of
                   Crash \<Rightarrow> Crash
                 | Ret val_buf \<Rightarrow>
                     Ret (ok_status,
                          Some ((the q)\<lparr>query := (query (the q))
                                  \<lparr>q_query_sparse_indices := idx_buf,
                                   q_query_sparse_values := val_buf\<rparr>\<rparr>)))))"

subsection \<open>Collections (\<^verbatim>\<open>collection.cpp\<close>)\<close>

text \<open>The read accessors return the status, the cell of the out-parameter after the call
  (\<open>None\<close> for a null out-pointer, otherwise the pointer the cell holds) and the calls made
  into the engine. The structures they allocate are given by their values.\<close>

definition zvec_collection_path ::
  "zvec_collection option \<Rightarrow> string option option
     \<Rightarrow> zvec_status \<times> string option option \<times> engine_call list" where
  "zvec_collection_path collection out_path =
     (if collection = None \<or> coll_ptr (the collection) = None \<or> out_path = None
      then (invalid_argument ''Invalid arguments'', out_path, [])
      else (case Path (the (coll_ptr (the collection))) of
              Inr v \<Rightarrow> (ok_status, Some (Some v), [Call_Path])
            | Inl e \<Rightarrow> (to_c_status e, out_path, [Call_Path])))"

definition zvec_collection_schema ::
  "zvec_collection option \<Rightarrow> zvec_collection_schema option option
     \<Rightarrow> zvec_status \<times> zvec_collection_schema option option \<times> engine_call list" where
  "zvec_collection_schema collection out_schema =
     (if collection = None \<or> coll_ptr (the collection) = None \<or> out_schema = None
      then (invalid_argument ''Invalid arguments'', out_schema, [])
      else (case Schema (the (coll_ptr (the collection))) of
              Inr v \<Rightarrow>
                (ok_status, Some (Some \<lparr>schema_ptr = Some v, schema_owned = True\<rparr>), [Call_Schema])
            | Inl e \<Rightarrow> (to_c_status e, out_schema, [Call_Schema])))"

definition zvec_collection_options ::
  "zvec_collection option \<Rightarrow> zvec_collection_options option option
     \<Rightarrow> zvec_status \<times> zvec_collection_options option option \<times> engine_call list" where
  "zvec_collection_options collection out_options =
     (if collection = None \<or> coll_ptr (the collection) = None \<or> out_options = None
      then (invalid_argument ''Invalid arguments'', out_options, [])
      else (case Options (the (coll_ptr (the collection))) of
              Inr v \<Rightarrow> (ok_status, Some (Some \<lparr>opts = v\<rparr>), [Call_Options])
            | Inl e \<Rightarrow> (to_c_status e, out_options, [Call_Options])))"

definition zvec_collection_stats ::
  "zvec_collection option \<Rightarrow> zvec_collection_stats option option
     \<Rightarrow> zvec_status \<times> zvec_collection_stats option option \<times> engine_call list" where
  "zvec_collection_stats collection out_stats =
     (if collection = None \<or> coll_ptr (the collection) = None \<or> out_stats = None
      then (invalid_argument ''Invalid arguments'', out_stats, [])
      else (case Stats (the (coll_ptr (the collection))) of
              Inr s \<Rightarrow>
                (ok_status,
                 Some (Some \<lparr>doc_count = stats_doc_count s, memory_usage = 0, json_details = None\<rparr>),
                 [Call_Stats])
            | Inl e \<Rightarrow> (to_c_status e, out_stats, [Call_Stats])))"

text \<open>The batch writers. \<^verbatim>\<open>collect_docs\<close> is the loop that fills \<^verbatim>\<open>cpp_docs\<close>: it copies the
  document behind every handle that is not null and whose pointer is not empty, and
  passes over the others.\<close>

fun collect_docs :: "heap \<Rightarrow> nat option list \<Rightarrow> Doc list outcome" where
  "collect_docs h [] = Ret []"
| "collect_docs h (None # ds) = collect_docs h ds"
| "collect_docs h (Some a # ds) =
     (case live h a of
        None \<Rightarrow> Crash
      | Some w \<Rightarrow>
          (case collect_docs h ds of
             Crash \<Rightarrow> Crash
           | Ret cpp_docs \<Rightarrow> Ret (case ptr w of None \<Rightarrow> cpp_docs | Some d \<Rightarrow> d # cpp_docs)))"

definition write_results :: "Status list \<Rightarrow> zvec_write_results" where
  \<comment> \<open>\<^verbatim>\<open>count = write_results.size()\<close>, the array allocated and \<^verbatim>\<open>statuses[i] =
     to_c_status(write_results[i])\<close> for every \<open>i\<close>\<close>
  "write_results rs = \<lparr>wr_statuses = Some (map to_c_status rs), wr_count = length rs\<rparr>"

definition report ::
  "Status + Status list \<Rightarrow> zvec_write_results option \<Rightarrow> zvec_status \<times> zvec_write_results option" where
  \<comment> \<open>the end of the four writers: \<^verbatim>\<open>out_results\<close> is filled when the engine answered a value
     and the pointer is not null, and the status is OK exactly when it answered a value\<close>
  "report result out_results =
     (case result of
        Inr rs \<Rightarrow> (ok_status, if out_results \<noteq> None then Some (write_results rs) else out_results)
      | Inl e \<Rightarrow> (to_c_status e, out_results))"

type_synonym write_result = "(zvec_status \<times> zvec_write_results option \<times> engine_call list) outcome"

definition write_docs ::
  "(Collection \<Rightarrow> Doc list \<Rightarrow> Status + Status list) \<Rightarrow> (Doc list \<Rightarrow> engine_call)
     \<Rightarrow> heap \<Rightarrow> zvec_collection option \<Rightarrow> nat option list option \<Rightarrow> nat
     \<Rightarrow> zvec_write_results option \<Rightarrow> write_result" where
  \<comment> \<open>the body shared by insert, upsert and update, which differ in the method called\<close>
  "write_docs method call h collection docs count out_results =
     (if collection = None \<or> coll_ptr (the collection) = None \<or> docs = None \<or> count = 0
      then Ret (invalid_argument ''Invalid arguments'', out_results, [])
      else (case read_array (the docs) count of
              Crash \<Rightarrow> Crash
            | Ret ds \<Rightarrow>
                (case collect_docs h ds of
                   Crash \<Rightarrow> Crash
                 | Ret cpp_docs \<Rightarrow>
                     (case report (method (the (coll_ptr (the collection))) cpp_docs) out_results of
                        (s, out) \<Rightarrow> Ret (s, out, [call cpp_docs])))))"

definition zvec_collection_insert ::
  "heap \<Rightarrow> zvec_collection option \<Rightarrow> nat option list option \<Rightarrow> nat
     \<Rightarrow> zvec_write_results option \<Rightarrow> write_result" where
  "zvec_collection_insert = write_docs Insert Call_Insert"

definition zvec_collection_upsert ::
  "heap \<Rightarrow> zvec_collection option \<Rightarrow> nat option list option \<Rightarrow> nat
     \<Rightarrow> zvec_write_results option \<Rightarrow> write_result" where
  "zvec_collection_upsert = write_docs Upsert Call_Upsert"

definition zvec_collection_update ::
  "heap \<Rightarrow> zvec_collection option \<Rightarrow> nat option list option \<Rightarrow> nat
     \<Rightarrow> zvec_write_results option \<Rightarrow> write_result" where
  "zvec_collection_update = write_docs Update Call_Update"

definition zvec_collection_delete ::
  "zvec_collection option \<Rightarrow> string option list option \<Rightarrow> nat
     \<Rightarrow> zvec_write_results option \<Rightarrow> write_result" where
  "zvec_collection_delete collection pks count out_results =
     (if collection = None \<or> coll_ptr (the collection) = None \<or> pks = None \<or> count = 0
      then Ret (invalid_argument ''Invalid arguments'', out_results, [])
      else (case read_array (the pks) count of
              Crash \<Rightarrow> Crash
            | Ret ps \<Rightarrow>
                (case cstrings ps of
                   Crash \<Rightarrow> Crash
                 | Ret cpp_pks \<Rightarrow>
                     (case report (Delete (the (coll_ptr (the collection))) cpp_pks) out_results of
                        (s, out) \<Rightarrow> Ret (s, out, [Call_Delete cpp_pks])))))"

text \<open>The queries allocate one handle for each document of the answer. \<^verbatim>\<open>new_handles\<close> is
  that loop: \<^verbatim>\<open>auto* doc = new zvec_doc_t; doc->ptr = ...; doc->owned = ...;\<close> and the handle
  stored in the array. \<^verbatim>\<open>zvec_collection_query\<close> and \<^verbatim>\<open>zvec_collection_fetch\<close> store the
  engine's shared pointer and \<^verbatim>\<open>owned = false\<close>, \<^verbatim>\<open>zvec_collection_group_by_query\<close> a shared
  pointer to a copy of the document and \<^verbatim>\<open>owned = true\<close>.\<close>

fun new_handles :: "bool \<Rightarrow> Doc option list \<Rightarrow> heap \<Rightarrow> nat option list \<times> heap" where
  "new_handles own [] h = ([], h)"
| "new_handles own (d # ds) h =
     (case new_zvec_doc \<lparr>ptr = d, owned = own\<rparr> h of
        (a, h1) \<Rightarrow> (case new_handles own ds h1 of (hs, h2) \<Rightarrow> (Some a # hs, h2)))"

definition zvec_collection_query ::
  "heap \<Rightarrow> zvec_collection option \<Rightarrow> zvec_vector_query option \<Rightarrow> zvec_doc_list option
     \<Rightarrow> zvec_status \<times> zvec_doc_list option \<times> heap \<times> engine_call list" where
  "zvec_collection_query h collection q out_results =
     (if collection = None \<or> coll_ptr (the collection) = None \<or> q = None \<or> out_results = None
      then (invalid_argument ''Invalid arguments'', out_results, h, [])
      else (case Query (the (coll_ptr (the collection))) (query (the q)) of
              Inr docs \<Rightarrow>
                (case new_handles False docs h of
                   (hs, h') \<Rightarrow>
                     (ok_status, Some \<lparr>dl_docs = Some hs, dl_count = length docs\<rparr>, h',
                      [Call_Query (query (the q))]))
            | Inl e \<Rightarrow> (to_c_status e, out_results, h, [Call_Query (query (the q))])))"

fun new_groups :: "GroupResult list \<Rightarrow> heap \<Rightarrow> zvec_group_result list \<times> heap" where
  "new_groups [] h = ([], h)"
| "new_groups (g # gs) h =
     (case new_handles True (map Some (group_docs g)) h of
        (hs, h1) \<Rightarrow>
          (case new_groups gs h1 of
             (rs, h2) \<Rightarrow>
               (\<lparr>gr_group_by_value = Some (group_by_value g),
                 gr_docs = \<lparr>dl_docs = Some hs, dl_count = length (group_docs g)\<rparr>\<rparr> # rs, h2)))"

definition zvec_collection_group_by_query ::
  "heap \<Rightarrow> zvec_collection option \<Rightarrow> zvec_group_by_vector_query option
     \<Rightarrow> zvec_group_results option
     \<Rightarrow> zvec_status \<times> zvec_group_results option \<times> heap \<times> engine_call list" where
  "zvec_collection_group_by_query h collection q out_results =
     (if collection = None \<or> coll_ptr (the collection) = None \<or> q = None \<or> out_results = None
      then (invalid_argument ''Invalid arguments'', out_results, h, [])
      else (case GroupByQuery (the (coll_ptr (the collection))) (gquery (the q)) of
              Inr groups \<Rightarrow>
                (case new_groups groups h of
                   (rs, h') \<Rightarrow>
                     (ok_status, Some \<lparr>grs_groups = Some rs, grs_count = length groups\<rparr>, h',
                      [Call_GroupByQuery (gquery (the q))]))
            | Inl e \<Rightarrow> (to_c_status e, out_results, h, [Call_GroupByQuery (gquery (the q))])))"

definition zvec_collection_fetch ::
  "heap \<Rightarrow> zvec_collection option \<Rightarrow> string option list option \<Rightarrow> nat \<Rightarrow> zvec_doc_map option
     \<Rightarrow> (zvec_status \<times> zvec_doc_map option \<times> heap \<times> engine_call list) outcome" where
  "zvec_collection_fetch h collection pks count out_results =
     (if collection = None \<or> coll_ptr (the collection) = None \<or> pks = None \<or> count = 0
         \<or> out_results = None
      then Ret (invalid_argument ''Invalid arguments'', out_results, h, [])
      else (case read_array (the pks) count of
              Crash \<Rightarrow> Crash
            | Ret ps \<Rightarrow>
                (case cstrings ps of
                   Crash \<Rightarrow> Crash
                 | Ret cpp_pks \<Rightarrow>
                     (case Fetch (the (coll_ptr (the collection))) cpp_pks of
                        Inr doc_map \<Rightarrow>
                          (case new_handles False (map snd doc_map) h of
                             (hs, h') \<Rightarrow>
                               Ret (ok_status,
                                    Some \<lparr>dm_keys = Some (map (Some \<circ> fst) doc_map),
                                          dm_docs = Some hs,
                                          dm_count = length doc_map\<rparr>,
                                    h', [Call_Fetch cpp_pks]))
                      | Inl e \<Rightarrow> Ret (to_c_status e, out_results, h, [Call_Fetch cpp_pks])))))"

subsection \<open>The registries (\<^verbatim>\<open>init.cpp\<close>)\<close>

text \<open>\<^verbatim>\<open>zvec::core::IndexFactory\<close> is the engine's: what its four listings answer at the time
  of a call is a parameter. The function-local \<^verbatim>\<open>static\<close> vectors are the state; the
  elements of \<^verbatim>\<open>cached_ptrs\<close> point to the strings of the cache and are given by these
  strings. A call returns the count, cast to \<^verbatim>\<open>int\<close>, and the array that the out-parameter
  receives; the out-pointer is written without a test.\<close>

record IndexFactory =
  AllMetrics :: "string list"
  AllBuilders :: "string list"
  AllSearchers :: "string list"
  AllStreamers :: "string list"

record statics =
  cached_metrics :: "string list"
  metrics_cached_ptrs :: "string list"
  cached_builders :: "string list"
  builders_cached_ptrs :: "string list"
  cached_searchers :: "string list"
  searchers_cached_ptrs :: "string list"
  cached_streamers :: "string list"
  streamers_cached_ptrs :: "string list"

definition initial_statics :: statics where
  "initial_statics =
     \<lparr>cached_metrics = [], metrics_cached_ptrs = [], cached_builders = [],
      builders_cached_ptrs = [], cached_searchers = [], searchers_cached_ptrs = [],
      cached_streamers = [], streamers_cached_ptrs = []\<rparr>"

definition size_to_int :: "nat \<Rightarrow> int" where
  \<comment> \<open>\<^verbatim>\<open>static_cast<int>\<close> of a \<^verbatim>\<open>size_t\<close>\<close>
  "size_to_int n = sint (word_of_nat n :: 32 word)"

type_synonym listing = "(int \<times> string list option \<times> statics) outcome"

definition zvec_list_registered_metrics :: "IndexFactory \<Rightarrow> statics \<Rightarrow> string list option \<Rightarrow> listing" where
  "zvec_list_registered_metrics factory st out_metrics =
     (let st' = (if cached_metrics st = []
                 then st\<lparr>cached_metrics := AllMetrics factory,
                         metrics_cached_ptrs := metrics_cached_ptrs st @ AllMetrics factory\<rparr>
                 else st)
      in case out_metrics of
           None \<Rightarrow> Crash
         | Some _ \<Rightarrow>
             Ret (size_to_int (length (metrics_cached_ptrs st')), Some (metrics_cached_ptrs st'), st'))"

definition zvec_list_registered_builders :: "IndexFactory \<Rightarrow> statics \<Rightarrow> string list option \<Rightarrow> listing" where
  "zvec_list_registered_builders factory st out_builders =
     (let st' = (if cached_builders st = []
                 then st\<lparr>cached_builders := AllBuilders factory,
                         builders_cached_ptrs := builders_cached_ptrs st @ AllBuilders factory\<rparr>
                 else st)
      in case out_builders of
           None \<Rightarrow> Crash
         | Some _ \<Rightarrow>
             Ret (size_to_int (length (builders_cached_ptrs st')), Some (builders_cached_ptrs st'), st'))"

definition zvec_list_registered_searchers :: "IndexFactory \<Rightarrow> statics \<Rightarrow> string list option \<Rightarrow> listing" where
  "zvec_list_registered_searchers factory st out_searchers =
     (let st' = (if cached_searchers st = []
                 then st\<lparr>cached_searchers := AllSearchers factory,
                         searchers_cached_ptrs := searchers_cached_ptrs st @ AllSearchers factory\<rparr>
                 else st)
      in case out_searchers of
           None \<Rightarrow> Crash
         | Some _ \<Rightarrow>
             Ret (size_to_int (length (searchers_cached_ptrs st')), Some (searchers_cached_ptrs st'), st'))"

definition zvec_list_registered_streamers :: "IndexFactory \<Rightarrow> statics \<Rightarrow> string list option \<Rightarrow> listing" where
  "zvec_list_registered_streamers factory st out_streamers =
     (let st' = (if cached_streamers st = []
                 then st\<lparr>cached_streamers := AllStreamers factory,
                         streamers_cached_ptrs := streamers_cached_ptrs st @ AllStreamers factory\<rparr>
                 else st)
      in case out_streamers of
           None \<Rightarrow> Crash
         | Some _ \<Rightarrow>
             Ret (size_to_int (length (streamers_cached_ptrs st')), Some (streamers_cached_ptrs st'), st'))"

subsection \<open>Sample data\<close>

text \<open>A document, a heap that holds one handle to it, and an engine that answers every
  batch row by row: the concrete inputs at which the results below are evaluated.\<close>

definition sample_doc :: Doc where
  "sample_doc = \<lparr>doc_pk = ''k1'', doc_doc_id = 7, doc_score = 0,
                  doc_fields = [''v'' \<mapsto> VecFloat [1, 2, 3]]\<rparr>"

definition sample_heap :: heap where
  "sample_heap = \<lparr>live = [0 \<mapsto> \<lparr>ptr = Some sample_doc, owned = True\<rparr>], fresh = 1\<rparr>"

definition row_status :: "Doc \<Rightarrow> Status" where
  "row_status d =
     (if doc_pk d = [] then \<lparr>status_code = 3, status_message = ''missing key''\<rparr>
      else \<lparr>status_code = 0, status_message = []\<rparr>)"

definition sample_engine :: Collection where
  "sample_engine =
     \<lparr>Path = Inr ''/data/c1'',
      Schema = Inr \<lparr>schema_name = ''c1'', schema_fields = [''v'']\<rparr>,
      Options = Inr \<lparr>read_only = False, enable_mmap = True, max_buffer_size = 64\<rparr>,
      Stats = Inl \<lparr>status_code = 5, status_message = ''no statistics''\<rparr>,
      Insert = (\<lambda>ds. Inr (map row_status ds)),
      Upsert = (\<lambda>ds. Inr (map row_status ds)),
      Update = (\<lambda>ds. Inr (map row_status ds)),
      Delete = (\<lambda>ks. Inr (map (\<lambda>k. \<lparr>status_code = 0, status_message = []\<rparr>) ks)),
      Query = (\<lambda>q. Inr [Some sample_doc]),
      GroupByQuery = (\<lambda>q. Inr [\<lparr>group_by_value = ''g'', group_docs = [sample_doc]\<rparr>]),
      Fetch = (\<lambda>ks. Inr (map (\<lambda>k. (k, Some sample_doc)) (filter (\<lambda>k. k = ''k1'') ks)))\<rparr>"

definition sample_collection :: zvec_collection where
  "sample_collection = \<lparr>coll_ptr = Some sample_engine\<rparr>"

definition sample_query :: zvec_vector_query where
  "sample_query =
     \<lparr>query = \<lparr>q_field_name = ''v'', q_topk = 10, q_filter = [], q_include_vector = False,
               q_include_doc_id = False, q_output_fields = [], q_query_params = None,
               q_query_vector = [], q_query_sparse_indices = [], q_query_sparse_values = []\<rparr>\<rparr>"

definition sample_group_query :: zvec_group_by_vector_query where
  "sample_group_query =
     \<lparr>gquery = \<lparr>g_field_name = ''v'', g_group_by_field_name = ''c'', g_group_count = 1,
                g_group_topk = 1, g_filter = [], g_output_fields = [], g_query_vector = []\<rparr>\<rparr>"

subsection \<open>Vocabulary of the results\<close>

text \<open>For a batch of handles: a handle is valid when it is null or live; the loop of the
  batch writers forwards the document behind a handle that is not null and whose
  document pointer is not empty.\<close>

fun valid_handle :: "heap \<Rightarrow> nat option \<Rightarrow> bool" where
  "valid_handle h None = True"
| "valid_handle h (Some a) = (live h a \<noteq> None)"

fun forwarded :: "heap \<Rightarrow> nat option \<Rightarrow> bool" where
  "forwarded h None = False"
| "forwarded h (Some a) = (case live h a of None \<Rightarrow> False | Some w \<Rightarrow> ptr w \<noteq> None)"

definition doc_behind :: "heap \<Rightarrow> nat option \<Rightarrow> Doc" where
  "doc_behind h x = the (ptr (the (live h (the x))))"

text \<open>For the registries: a run of the process is a sequence of calls of the four listing
  functions, each with what the engine's factory lists at that moment and with an
  out-pointer that is not null. \<open>call_listing\<close> gives the count and the array that a call
  returns, and the static state after it.\<close>

datatype listing_fn = Metrics | Builders | Searchers | Streamers

definition call_listing :: "listing_fn \<Rightarrow> IndexFactory \<Rightarrow> statics \<Rightarrow> (int \<times> string list) \<times> statics" where
  "call_listing fn factory st =
     (case (case fn of
              Metrics \<Rightarrow> zvec_list_registered_metrics factory st (Some [])
            | Builders \<Rightarrow> zvec_list_registered_builders factory st (Some [])
            | Searchers \<Rightarrow> zvec_list_registered_searchers factory st (Some [])
            | Streamers \<Rightarrow> zvec_list_registered_streamers factory st (Some [])) of
        Ret (n, Some names, st') \<Rightarrow> ((n, names), st')
      | _ \<Rightarrow> ((0, []), st))"

fun run_listings :: "(listing_fn \<times> IndexFactory) list \<Rightarrow> statics \<Rightarrow> statics" where
  "run_listings [] st = st"
| "run_listings ((fn, factory) # calls) st = run_listings calls (snd (call_listing fn factory st))"

definition cache_of :: "listing_fn \<Rightarrow> statics \<Rightarrow> string list" where
  "cache_of fn st =
     (case fn of Metrics \<Rightarrow> cached_metrics st | Builders \<Rightarrow> cached_builders st
      | Searchers \<Rightarrow> cached_searchers st | Streamers \<Rightarrow> cached_streamers st)"

definition ptrs_of :: "listing_fn \<Rightarrow> statics \<Rightarrow> string list" where
  "ptrs_of fn st =
     (case fn of Metrics \<Rightarrow> metrics_cached_ptrs st | Builders \<Rightarrow> builders_cached_ptrs st
      | Searchers \<Rightarrow> searchers_cached_ptrs st | Streamers \<Rightarrow> streamers_cached_ptrs st)"

definition in_step :: "statics \<Rightarrow> bool" where
  \<comment> \<open>each array of pointers lists the strings of its cache\<close>
  "in_step st =
     (ptrs_of Metrics st = cache_of Metrics st \<and> ptrs_of Builders st = cache_of Builders st
      \<and> ptrs_of Searchers st = cache_of Searchers st
      \<and> ptrs_of Streamers st = cache_of Streamers st)"

definition factory_empty :: IndexFactory where
  "factory_empty = \<lparr>AllMetrics = [], AllBuilders = [], AllSearchers = [], AllStreamers = []\<rparr>"

definition factory_l2 :: IndexFactory where
  "factory_l2 =
     \<lparr>AllMetrics = [''L2''], AllBuilders = [''Hnsw''], AllSearchers = [], AllStreamers = []\<rparr>"

definition factory_more :: IndexFactory where
  "factory_more =
     \<lparr>AllMetrics = [''L2'', ''IP''], AllBuilders = [''Hnsw'', ''Flat''],
      AllSearchers = [''Hnsw''], AllStreamers = []\<rparr>"

text \<open>What the engine's factory lists for a listing function, and the first list that was
  not empty among those the factory listed at the calls of a function in a run (the empty
  list when there was none).\<close>

definition engine_list :: "listing_fn \<Rightarrow> IndexFactory \<Rightarrow> string list" where
  "engine_list fn factory =
     (case fn of Metrics \<Rightarrow> AllMetrics factory | Builders \<Rightarrow> AllBuilders factory
      | Searchers \<Rightarrow> AllSearchers factory | Streamers \<Rightarrow> AllStreamers factory)"

fun observed :: "listing_fn \<Rightarrow> (listing_fn \<times> IndexFactory) list \<Rightarrow> string list" where
  "observed fn [] = []"
| "observed fn ((fn', factory) # calls) =
     (if fn' = fn \<and> engine_list fn factory \<noteq> [] then engine_list fn factory
      else observed fn calls)"


text \<open>The sample heap after \<^verbatim>\<open>zvec_collection_query\<close> allocated one handle for the sample
  engine's answer.\<close>

definition queried_heap :: heap where
  "queried_heap =
     \<lparr>live = [0 \<mapsto> \<lparr>ptr = Some sample_doc, owned = True\<rparr>,
              1 \<mapsto> \<lparr>ptr = Some sample_doc, owned = False\<rparr>],
      fresh = 2\<rparr>"

text \<open>For the documents: a run of field setters on one handle. \<open>call_setter\<close> is one call of a
  function of \<^verbatim>\<open>doc.cpp\<close> that sets a field, with its arguments after the handle;
  \<open>names\<close> is the field name the call is given; \<open>call_setters\<close> makes the calls in order
  on the heap, whatever their statuses, and stops when a call does not return.\<close>

datatype setter_call =
    Set_bool "string option" bool
  | Set_int32 "string option" "32 word"
  | Set_int64 "string option" "64 word"
  | Set_uint32 "string option" "32 word"
  | Set_uint64 "string option" "64 word"
  | Set_float "string option" c_float
  | Set_double "string option" c_double
  | Set_string "string option" "string option"
  | Set_null "string option"
  | Set_vector_fp32 "string option" "c_float list option" nat
  | Set_vector_fp64 "string option" "c_double list option" nat
  | Set_vector_int8 "string option" "8 word list option" nat
  | Set_vector_int16 "string option" "16 word list option" nat
  | Set_vector_int32 "string option" "32 word list option" nat
  | Set_vector_int64 "string option" "64 word list option" nat
  | Set_sparse_vector_fp32 "string option" "32 word list option" nat "c_float list option" nat
  | Set_array_int32 "string option" "32 word list option" nat
  | Set_array_int64 "string option" "64 word list option" nat
  | Set_array_float "string option" "c_float list option" nat
  | Set_array_double "string option" "c_double list option" nat
  | Set_array_string "string option" "string option list option" nat

fun names :: "setter_call \<Rightarrow> string option" where
  "names (Set_bool f _) = f"
| "names (Set_int32 f _) = f"
| "names (Set_int64 f _) = f"
| "names (Set_uint32 f _) = f"
| "names (Set_uint64 f _) = f"
| "names (Set_float f _) = f"
| "names (Set_double f _) = f"
| "names (Set_string f _) = f"
| "names (Set_null f) = f"
| "names (Set_vector_fp32 f _ _) = f"
| "names (Set_vector_fp64 f _ _) = f"
| "names (Set_vector_int8 f _ _) = f"
| "names (Set_vector_int16 f _ _) = f"
| "names (Set_vector_int32 f _ _) = f"
| "names (Set_vector_int64 f _ _) = f"
| "names (Set_sparse_vector_fp32 f _ _ _ _) = f"
| "names (Set_array_int32 f _ _) = f"
| "names (Set_array_int64 f _ _) = f"
| "names (Set_array_float f _ _) = f"
| "names (Set_array_double f _ _) = f"
| "names (Set_array_string f _ _) = f"





section \<open>Results\<close>

lemmas status_code_defs =
  ZVEC_STATUS_OK_def ZVEC_STATUS_NOT_FOUND_def ZVEC_STATUS_ALREADY_EXISTS_def
  ZVEC_STATUS_INVALID_ARGUMENT_def ZVEC_STATUS_NOT_SUPPORTED_def
  ZVEC_STATUS_INTERNAL_ERROR_def ZVEC_STATUS_PERMISSION_DENIED_def
  ZVEC_STATUS_FAILED_PRECONDITION_def ZVEC_STATUS_UNKNOWN_def

lemmas sample_defs =
  sample_doc_def sample_heap_def row_status_def sample_engine_def sample_collection_def
  sample_query_def sample_group_query_def

subsection \<open>Local validation\<close>

text \<open>
  C4, as the code behaves: the seven numeric setters read \<^verbatim>\<open>doc->ptr\<close> before
  \<^verbatim>\<open>set_field_helper\<close> tests anything, so a null document handle is dereferenced and the
  call does not return a status; \<^verbatim>\<open>zvec_doc_set_string\<close> tests the handle and the field name
  but builds a \<^verbatim>\<open>std::string\<close> from a null value pointer.
\<close>

theorem scalar_setters_null_arguments:
  "zvec_doc_set_bool h None field b = Crash
   \<and> zvec_doc_set_int32 h None field i32 = Crash
   \<and> zvec_doc_set_int64 h None field i64 = Crash
   \<and> zvec_doc_set_uint32 h None field u32 = Crash
   \<and> zvec_doc_set_uint64 h None field u64 = Crash
   \<and> zvec_doc_set_float h None field fl = Crash
   \<and> zvec_doc_set_double h None field db = Crash
   \<and> (live h a = Some w \<and> ptr w \<noteq> None \<longrightarrow>
        zvec_doc_set_string h (Some a) (Some f) None = Crash)"
  by (simp add: zvec_doc_set_bool_def zvec_doc_set_int32_def zvec_doc_set_int64_def
      zvec_doc_set_uint32_def zvec_doc_set_uint64_def zvec_doc_set_float_def
      zvec_doc_set_double_def scalar_setter_def zvec_doc_set_string_def)

theorem scalar_setters_null_arguments_witness:
  "zvec_doc_set_bool sample_heap None (Some ''f'') True = Crash
   \<and> zvec_doc_set_string sample_heap (Some 0) (Some ''f'') None = Crash"
  using scalar_setters_null_arguments [of sample_heap "Some ''f''" True _ _ _ _ _ _ 0
      "\<lparr>ptr = Some sample_doc, owned = True\<rparr>" "''f''"]
  by (simp add: sample_heap_def)

text \<open>What the setters do reject: a null field name, a handle whose document pointer is
  empty and, for \<^verbatim>\<open>zvec_doc_set_string\<close>, a null handle. The heap is unchanged and the engine
  is not called.\<close>

lemma scalar_setter_rejects:
  assumes "live h a = Some w" and "ptr w = None \<or> field = None"
  shows "scalar_setter h (Some a) field v = Ret (invalid_argument ''Invalid doc or field'', h, [])"
proof -
  have "store h a (w\<lparr>ptr := ptr w\<rparr>) = h"
    using assms(1) by (simp add: store_def fun_upd_idem)
  with assms show ?thesis
    by (auto simp: scalar_setter_def set_field_helper_def)
qed

lemma set_string_rejects:
  "zvec_doc_set_string h None field value = Ret (invalid_argument ''Invalid doc or field'', h, [])"
  "live h a = Some w \<Longrightarrow> ptr w = None \<or> field = None \<Longrightarrow>
     zvec_doc_set_string h (Some a) field value = Ret (invalid_argument ''Invalid doc or field'', h, [])"
  by (auto simp: zvec_doc_set_string_def)

text \<open>
  C7: a call of \<^verbatim>\<open>zvec_doc_set_sparse_vector_fp32\<close> or of
  \<^verbatim>\<open>zvec_vector_query_set_sparse_vector_fp32\<close> whose two counts differ returns
  INVALID_ARGUMENT with the message made here, leaves the document and the query as they
  were and calls nothing of the engine. The document handle is null or a live handle.
\<close>

theorem sparse_count_mismatch_rejected:
  assumes "indices_count \<noteq> values_count"
    and "doc = None \<or> (\<exists>a w. doc = Some a \<and> live h a = Some w)"
  shows "zvec_doc_set_sparse_vector_fp32 h doc field indices indices_count values values_count =
           Ret (\<lparr>code = ZVEC_STATUS_INVALID_ARGUMENT, message = Some ''Invalid arguments''\<rparr>, h, [])
         \<and> zvec_vector_query_set_sparse_vector_fp32 q indices indices_count values values_count =
           Ret (\<lparr>code = ZVEC_STATUS_INVALID_ARGUMENT, message = Some ''Invalid arguments''\<rparr>, q)"
  using assms
  by (auto simp: zvec_doc_set_sparse_vector_fp32_def zvec_vector_query_set_sparse_vector_fp32_def
      invalid_argument_def)

theorem sparse_count_mismatch_rejected_witness:
  "zvec_doc_set_sparse_vector_fp32 sample_heap (Some 0) (Some ''s'') (Some [1, 5]) 2 (Some [3]) 1 =
     Ret (\<lparr>code = ZVEC_STATUS_INVALID_ARGUMENT, message = Some ''Invalid arguments''\<rparr>, sample_heap, [])
   \<and> zvec_vector_query_set_sparse_vector_fp32 (Some sample_query) (Some [1, 5]) 2 (Some [3]) 1 =
     Ret (\<lparr>code = ZVEC_STATUS_INVALID_ARGUMENT, message = Some ''Invalid arguments''\<rparr>, Some sample_query)"
proof -
  have ne: "(2::nat) \<noteq> 1" by simp
  have ok: "Some (0::nat) = None \<or>
      (\<exists>a w. Some (0::nat) = Some a \<and> live sample_heap a = Some w)"
    by (simp add: sample_heap_def)
  show ?thesis
    by (rule sparse_count_mismatch_rejected [OF ne ok])
qed

text \<open>
  C10: with \<open>count = 0\<close> the four batch writers and \<^verbatim>\<open>zvec_collection_fetch\<close> return
  INVALID_ARGUMENT, whatever the other arguments are; the out-parameter and the heap are
  as before and the engine is not called. No empty batch is answered OK.
\<close>

theorem empty_batch_rejected:
  "zvec_collection_insert h collection docs 0 out_results =
     Ret (\<lparr>code = ZVEC_STATUS_INVALID_ARGUMENT, message = Some ''Invalid arguments''\<rparr>, out_results, [])
   \<and> zvec_collection_upsert h collection docs 0 out_results =
     Ret (\<lparr>code = ZVEC_STATUS_INVALID_ARGUMENT, message = Some ''Invalid arguments''\<rparr>, out_results, [])
   \<and> zvec_collection_update h collection docs 0 out_results =
     Ret (\<lparr>code = ZVEC_STATUS_INVALID_ARGUMENT, message = Some ''Invalid arguments''\<rparr>, out_results, [])
   \<and> zvec_collection_delete collection pks 0 out_results =
     Ret (\<lparr>code = ZVEC_STATUS_INVALID_ARGUMENT, message = Some ''Invalid arguments''\<rparr>, out_results, [])
   \<and> zvec_collection_fetch h collection pks 0 out_map =
     Ret (\<lparr>code = ZVEC_STATUS_INVALID_ARGUMENT, message = Some ''Invalid arguments''\<rparr>, out_map, h, [])"
  by (simp add: zvec_collection_insert_def zvec_collection_upsert_def zvec_collection_update_def
      write_docs_def zvec_collection_delete_def zvec_collection_fetch_def invalid_argument_def)

theorem empty_batch_rejected_witness:
  "zvec_collection_insert sample_heap (Some sample_collection) (Some []) 0 None =
     Ret (\<lparr>code = ZVEC_STATUS_INVALID_ARGUMENT, message = Some ''Invalid arguments''\<rparr>, None, [])
   \<and> zvec_collection_fetch sample_heap (Some sample_collection) (Some []) 0
       (Some \<lparr>dm_keys = None, dm_docs = None, dm_count = 0\<rparr>) =
     Ret (\<lparr>code = ZVEC_STATUS_INVALID_ARGUMENT, message = Some ''Invalid arguments''\<rparr>,
          Some \<lparr>dm_keys = None, dm_docs = None, dm_count = 0\<rparr>, sample_heap, [])"
  using empty_batch_rejected [of sample_heap "Some sample_collection" "Some []" None "Some []"
      "Some \<lparr>dm_keys = None, dm_docs = None, dm_count = 0\<rparr>"]
  by simp

subsection \<open>Reading a vector\<close>

text \<open>
  C5, amended: for a document whose field \<open>f\<close> holds an fp32 vector of length \<open>L\<close>: with a
  buffer that is not null and holds the elements to copy, and a capacity \<open>max_len > 0\<close>,
  \<^verbatim>\<open>zvec_doc_get_vector_fp32\<close> copies the first \<open>min L max_len\<close> elements into the buffer,
  leaves the rest of the buffer as it was and returns \<open>L\<close>, also when \<open>L > max_len\<close>; with
  \<open>max_len = 0\<close>, and with a null buffer, it copies nothing and returns 0.
\<close>

theorem get_vector_fp32_reports_true_count:
  assumes "live h a = Some w" and "ptr w = Some d"
    and "doc_fields d f = Some (VecFloat vec)"
  shows "(0 < max_len \<and> min (length vec) max_len \<le> length buf \<longrightarrow>
            zvec_doc_get_vector_fp32 h (Some a) (Some f) (Some buf) max_len =
              Ret (length vec,
                   Some (take (min (length vec) max_len) vec
                         @ drop (min (length vec) max_len) buf)))
       \<and> zvec_doc_get_vector_fp32 h (Some a) (Some f) (Some buf) 0 = Ret (0, Some buf)
       \<and> zvec_doc_get_vector_fp32 h (Some a) (Some f) None max_len = Ret (0, None)"
  using assms by (simp add: zvec_doc_get_vector_fp32_def Doc_get_vector_float_def Let_def)

theorem get_vector_fp32_reports_true_count_witness:
  "zvec_doc_get_vector_fp32 sample_heap (Some 0) (Some ''v'') (Some [9, 9]) 2 =
     Ret (3, Some [1, 2])
   \<and> zvec_doc_get_vector_fp32 sample_heap (Some 0) (Some ''v'') (Some [9, 9]) 0 =
     Ret (0, Some [9, 9])
   \<and> zvec_doc_get_vector_fp32 sample_heap (Some 0) (Some ''v'') None 2 = Ret (0, None)"
proof -
  have h1: "live sample_heap 0 = Some \<lparr>ptr = Some sample_doc, owned = True\<rparr>"
    by (simp add: sample_heap_def)
  have h2: "ptr \<lparr>ptr = Some sample_doc, owned = True\<rparr> = Some sample_doc"
    by simp
  have h3: "doc_fields sample_doc ''v'' = Some (VecFloat [1, 2, 3])"
    by (simp add: sample_doc_def)
  note t = get_vector_fp32_reports_true_count [OF h1 h2 h3, of 2 "[9, 9]"]
  have a: "zvec_doc_get_vector_fp32 sample_heap (Some 0) (Some ''v'') (Some [9, 9]) 2 =
      Ret (3, Some [1, 2])"
    using t [THEN conjunct1] by simp
  from a t [THEN conjunct2] show ?thesis
    by (intro conjI) simp_all
qed

text \<open>With capacity 0 the function returns 0 for a field that holds three elements.\<close>

theorem get_vector_fp32_zero_capacity_counterexample:
  "doc_fields sample_doc ''v'' = Some (VecFloat [1, 2, 3])
   \<and> zvec_doc_get_vector_fp32 sample_heap (Some 0) (Some ''v'') (Some [9, 9]) 0 =
       Ret (0, Some [9, 9])"
  by (simp add: zvec_doc_get_vector_fp32_def sample_defs)

subsection \<open>Batch results\<close>

lemma collect_docs_forwarded:
  "list_all (valid_handle h) ds \<Longrightarrow>
   collect_docs h ds = Ret (map (doc_behind h) (filter (forwarded h) ds))"
proof (induction ds)
  case Nil
  then show ?case by simp
next
  case (Cons x ds)
  then have rest: "collect_docs h ds = Ret (map (doc_behind h) (filter (forwarded h) ds))"
    by simp
  show ?case
  proof (cases x)
    case None
    then show ?thesis using rest by simp
  next
    case (Some a)
    with Cons.prems obtain w where w: "live h a = Some w"
      by auto
    show ?thesis
      using Some w rest by (cases "ptr w") (simp_all add: doc_behind_def)
  qed
qed

lemma write_docs_answered:
  assumes "0 < count" and "count \<le> length docs"
    and "list_all (valid_handle h) (take count docs)"
    and "coll_ptr c = Some engine"
    and "method engine (map (doc_behind h) (filter (forwarded h) (take count docs))) = Inr rs"
  shows "write_docs method call h (Some c) (Some docs) count (Some out0) =
           Ret (ok_status, Some \<lparr>wr_statuses = Some (map to_c_status rs), wr_count = length rs\<rparr>,
                [call (map (doc_behind h) (filter (forwarded h) (take count docs)))])"
  using assms
  by (simp add: write_docs_def read_array_def collect_docs_forwarded report_def write_results_def)

lemma cstrings_Some: "cstrings (map Some keys) = Ret keys"
  by (induction keys) simp_all

text \<open>
  C1, amended: the loop of \<^verbatim>\<open>zvec_collection_insert\<close>, \<^verbatim>\<open>zvec_collection_upsert\<close> and
  \<^verbatim>\<open>zvec_collection_update\<close> passes over the elements that are null handles or handles
  without a document, and the engine receives the documents of the other elements, in
  input order. When the engine answers one status for each document it received and
  \<^verbatim>\<open>out_results\<close> is not null, the call returns OK and the results hold exactly the
  engine's statuses, converted, in order: \<open>count\<close> is the number of forwarded elements,
  which is \<open>N\<close> when no element is passed over. \<^verbatim>\<open>zvec_collection_delete\<close> forwards every
  key, so its \<open>count\<close> is \<open>N\<close>.
\<close>

theorem write_results_one_per_forwarded_element:
  assumes "0 < count" and "count \<le> length docs" and "count \<le> length pks"
    and "list_all (valid_handle h) (take count docs)"
    and "take count pks = map Some keys"
    and "coll_ptr c = Some engine"
    and "batch = map (doc_behind h) (filter (forwarded h) (take count docs))"
    and "n = length (filter (forwarded h) (take count docs))"
  shows "(Insert engine batch = Inr rs \<and> length rs = length batch \<longrightarrow>
            zvec_collection_insert h (Some c) (Some docs) count (Some out0) =
              Ret (ok_status, Some \<lparr>wr_statuses = Some (map to_c_status rs), wr_count = n\<rparr>,
                   [Call_Insert batch]))
       \<and> (Upsert engine batch = Inr rs \<and> length rs = length batch \<longrightarrow>
            zvec_collection_upsert h (Some c) (Some docs) count (Some out0) =
              Ret (ok_status, Some \<lparr>wr_statuses = Some (map to_c_status rs), wr_count = n\<rparr>,
                   [Call_Upsert batch]))
       \<and> (Update engine batch = Inr rs \<and> length rs = length batch \<longrightarrow>
            zvec_collection_update h (Some c) (Some docs) count (Some out0) =
              Ret (ok_status, Some \<lparr>wr_statuses = Some (map to_c_status rs), wr_count = n\<rparr>,
                   [Call_Update batch]))
       \<and> (Delete engine keys = Inr rs \<and> length rs = length keys \<longrightarrow>
            zvec_collection_delete (Some c) (Some pks) count (Some out0) =
              Ret (ok_status, Some \<lparr>wr_statuses = Some (map to_c_status rs), wr_count = count\<rparr>,
                   [Call_Delete keys]))
       \<and> (list_all (forwarded h) (take count docs) \<longrightarrow> n = count)"
proof -
  have len: "length batch = n"
    using assms(7,8) by simp
  have keys: "length keys = count"
    using assms(3,5) by (metis length_map length_take min.absorb2)
  have all: "list_all (forwarded h) (take count docs) \<longrightarrow> n = count"
    using assms(2,8) by (auto simp: list_all_iff filter_id_conv)
  have del: "Delete engine keys = Inr rs \<and> length rs = length keys \<longrightarrow>
      zvec_collection_delete (Some c) (Some pks) count (Some out0) =
        Ret (ok_status, Some \<lparr>wr_statuses = Some (map to_c_status rs), wr_count = count\<rparr>,
             [Call_Delete keys])"
    using assms(1,3,5,6) keys
    by (simp add: zvec_collection_delete_def read_array_def cstrings_Some report_def
        write_results_def)
  show ?thesis
    using write_docs_answered [OF assms(1,2,4,6), of Insert rs Call_Insert out0]
      write_docs_answered [OF assms(1,2,4,6), of Upsert rs Call_Upsert out0]
      write_docs_answered [OF assms(1,2,4,6), of Update rs Call_Update out0]
      del all len assms(7)
    by (simp add: zvec_collection_insert_def zvec_collection_upsert_def zvec_collection_update_def)
qed

theorem write_results_one_per_forwarded_element_witness:
  "zvec_collection_insert sample_heap (Some sample_collection) (Some [Some 0, None, Some 0]) 3
       (Some \<lparr>wr_statuses = None, wr_count = 0\<rparr>) =
     Ret (ok_status,
          Some \<lparr>wr_statuses = Some [\<lparr>code = 0, message = None\<rparr>, \<lparr>code = 0, message = None\<rparr>],
                wr_count = 2\<rparr>,
          [Call_Insert [sample_doc, sample_doc]])
   \<and> zvec_collection_delete (Some sample_collection) (Some [Some ''k1'', Some ''k2'', Some ''k3'']) 3
       (Some \<lparr>wr_statuses = None, wr_count = 0\<rparr>) =
     Ret (ok_status,
          Some \<lparr>wr_statuses = Some [\<lparr>code = 0, message = None\<rparr>, \<lparr>code = 0, message = None\<rparr>,
                                    \<lparr>code = 0, message = None\<rparr>],
                wr_count = 3\<rparr>,
          [Call_Delete [''k1'', ''k2'', ''k3'']])"
proof -
  let ?docs = "[Some 0, None, Some (0::nat)]"
  let ?pks = "[Some ''k1'', Some ''k2'', Some ''k3'']"
  let ?ok = "\<lparr>status_code = 0, status_message = []\<rparr>"
  have live0: "live sample_heap 0 = Some \<lparr>ptr = Some sample_doc, owned = True\<rparr>"
    by (simp add: sample_heap_def)
  have h1: "(0::nat) < 3" and h2: "3 \<le> length ?docs" and h3: "3 \<le> length ?pks"
    by simp_all
  have h4: "list_all (valid_handle sample_heap) (take 3 ?docs)"
    by (simp add: live0)
  have h5: "take 3 ?pks = map Some [''k1'', ''k2'', ''k3'']"
    by simp
  have h6: "coll_ptr sample_collection = Some sample_engine"
    by (simp add: sample_collection_def)
  have h7: "[sample_doc, sample_doc] =
      map (doc_behind sample_heap) (filter (forwarded sample_heap) (take 3 ?docs))"
    by (simp add: live0 doc_behind_def)
  have h8: "2 = length (filter (forwarded sample_heap) (take 3 ?docs))"
    by (simp add: live0)
  have pk: "doc_pk sample_doc \<noteq> []"
    by (simp add: sample_doc_def)
  have ins: "Insert sample_engine [sample_doc, sample_doc] = Inr [?ok, ?ok]"
    using pk by (simp add: sample_engine_def row_status_def)
  have del: "Delete sample_engine [''k1'', ''k2'', ''k3''] = Inr [?ok, ?ok, ?ok]"
    by (simp add: sample_engine_def)
  have c: "to_c_status ?ok = \<lparr>code = 0, message = None\<rparr>"
    by (simp add: to_c_status_def)
  note t1 = write_results_one_per_forwarded_element [OF h1 h2 h3 h4 h5 h6 h7 h8, of "[?ok, ?ok]"
      "\<lparr>wr_statuses = None, wr_count = 0\<rparr>"]
  note t2 = write_results_one_per_forwarded_element [OF h1 h2 h3 h4 h5 h6 h7 h8, of "[?ok, ?ok, ?ok]"
      "\<lparr>wr_statuses = None, wr_count = 0\<rparr>"]
  have a: "zvec_collection_insert sample_heap (Some sample_collection) (Some ?docs) 3
       (Some \<lparr>wr_statuses = None, wr_count = 0\<rparr>) =
     Ret (ok_status, Some \<lparr>wr_statuses = Some (map to_c_status [?ok, ?ok]), wr_count = 2\<rparr>,
          [Call_Insert [sample_doc, sample_doc]])"
    by (rule t1 [THEN conjunct1, THEN mp]) (rule conjI, rule ins, simp)
  have b: "zvec_collection_delete (Some sample_collection) (Some ?pks) 3
       (Some \<lparr>wr_statuses = None, wr_count = 0\<rparr>) =
     Ret (ok_status, Some \<lparr>wr_statuses = Some (map to_c_status [?ok, ?ok, ?ok]), wr_count = 3\<rparr>,
          [Call_Delete [''k1'', ''k2'', ''k3'']])"
    by (rule t2 [THEN conjunct2, THEN conjunct2, THEN conjunct2, THEN conjunct1, THEN mp])
      (rule conjI, rule del, simp)
  show ?thesis
    unfolding a b by (simp only: list.map c simp_thms)
qed

text \<open>A batch of two elements whose first handle is null: the call returns OK, the results
  hold one status, and the status at index 0 is the outcome of input element 1.\<close>

theorem insert_skips_null_handle_counterexample:
  "zvec_collection_insert sample_heap (Some sample_collection) (Some [None, Some 0]) 2
       (Some \<lparr>wr_statuses = None, wr_count = 0\<rparr>) =
     Ret (\<lparr>code = ZVEC_STATUS_OK, message = None\<rparr>,
          Some \<lparr>wr_statuses = Some [\<lparr>code = ZVEC_STATUS_OK, message = None\<rparr>], wr_count = 1\<rparr>,
          [Call_Insert [sample_doc]])"
  by (simp add: zvec_collection_insert_def write_docs_def read_array_def report_def
      write_results_def to_c_status_def ok_status_def ZVEC_STATUS_OK_def sample_defs)

subsection \<open>The registries\<close>

lemmas listing_defs =
  call_listing_def zvec_list_registered_metrics_def zvec_list_registered_builders_def
  zvec_list_registered_searchers_def zvec_list_registered_streamers_def cache_of_def ptrs_of_def
  in_step_def

lemma in_step_initial: "in_step initial_statics"
  by (simp add: in_step_def ptrs_of_def cache_of_def initial_statics_def)

lemma in_step_call: "in_step st \<Longrightarrow> in_step (snd (call_listing fn factory st))"
  by (cases fn) (auto simp: listing_defs Let_def)

lemma in_step_run: "in_step st \<Longrightarrow> in_step (run_listings calls st)"
  by (induction calls arbitrary: st) (auto simp: in_step_call)

lemma call_cached:
  assumes "in_step st" and "cache_of fn st \<noteq> []"
  shows "call_listing fn factory st = ((size_to_int (length (cache_of fn st)), cache_of fn st), st)"
  using assms by (cases fn) (auto simp: listing_defs Let_def)

lemma call_fills:
  assumes "in_step st"
  shows "cache_of fn (snd (call_listing fn factory st)) = snd (fst (call_listing fn factory st))"
    and "fst (fst (call_listing fn factory st)) =
           size_to_int (length (snd (fst (call_listing fn factory st))))"
  using assms by (cases fn; auto simp: listing_defs Let_def)+

lemma call_keeps_cache:
  assumes "cache_of fn st \<noteq> []"
  shows "cache_of fn (snd (call_listing fn' factory st)) = cache_of fn st"
  using assms by (cases fn; cases fn'; auto simp: listing_defs Let_def)

lemma run_keeps_cache:
  "cache_of fn st \<noteq> [] \<Longrightarrow> cache_of fn (run_listings calls st) = cache_of fn st"
  by (induction calls arbitrary: st) (auto simp: call_keeps_cache)

lemma fixed_once_nonempty:
  assumes first: "call_listing fn factory1 (run_listings before initial_statics) = (r, st1)"
    and nonempty: "snd r \<noteq> []"
  shows "fst (call_listing fn factory2 (run_listings between st1)) = r"
proof -
  let ?st0 = "run_listings before initial_statics"
  have inv0: "in_step ?st0"
    by (simp add: in_step_run in_step_initial)
  have st1: "st1 = snd (call_listing fn factory1 ?st0)"
    and r: "r = fst (call_listing fn factory1 ?st0)"
    using first by simp_all
  have inv1: "in_step st1"
    unfolding st1 by (rule in_step_call [OF inv0])
  have cache1: "cache_of fn st1 = snd r"
    unfolding st1 r by (rule call_fills(1) [OF inv0])
  have count1: "fst r = size_to_int (length (snd r))"
    unfolding r by (rule call_fills(2) [OF inv0])
  let ?st2 = "run_listings between st1"
  have inv2: "in_step ?st2"
    by (rule in_step_run [OF inv1])
  have cache2: "cache_of fn ?st2 = snd r"
    using run_keeps_cache [of fn st1 between] cache1 nonempty by simp
  have "call_listing fn factory2 ?st2 =
          ((size_to_int (length (cache_of fn ?st2)), cache_of fn ?st2), ?st2)"
    by (rule call_cached [OF inv2]) (simp add: cache2 nonempty)
  then show ?thesis
    using cache2 count1 by (cases r) simp
qed

lemma call_empty:
  assumes "in_step st" and "cache_of fn st = []"
  shows "call_listing fn factory st =
           ((size_to_int (length (engine_list fn factory)), engine_list fn factory),
            snd (call_listing fn factory st))"
    and "cache_of fn (snd (call_listing fn factory st)) = engine_list fn factory"
  using assms by (cases fn; auto simp: listing_defs engine_list_def Let_def)+

lemma call_other_cache:
  assumes "fn' \<noteq> fn"
  shows "cache_of fn (snd (call_listing fn' factory st)) = cache_of fn st"
  using assms by (cases fn; cases fn'; auto simp: listing_defs Let_def)

lemma cache_after_run:
  assumes "in_step st"
  shows "cache_of fn (run_listings calls st) =
           (if cache_of fn st \<noteq> [] then cache_of fn st else observed fn calls)"
  using assms
proof (induction calls arbitrary: st)
  case Nil
  then show ?case by simp
next
  case (Cons c calls)
  obtain fn' factory where c: "c = (fn', factory)"
    by (cases c)
  let ?st1 = "snd (call_listing fn' factory st)"
  have inv1: "in_step ?st1"
    by (rule in_step_call [OF Cons.prems])
  have ih: "cache_of fn (run_listings calls ?st1) =
      (if cache_of fn ?st1 \<noteq> [] then cache_of fn ?st1 else observed fn calls)"
    by (rule Cons.IH [OF inv1])
  show ?case
  proof (cases "cache_of fn st = []")
    case False
    then have "cache_of fn ?st1 = cache_of fn st"
      by (rule call_keeps_cache)
    with False ih c show ?thesis by simp
  next
    case True
    show ?thesis
    proof (cases "fn' = fn")
      case same: True
      have "cache_of fn ?st1 = engine_list fn factory"
        using call_empty(2) [OF Cons.prems True] same by simp
      with True ih c same show ?thesis by simp
    next
      case other: False
      then have "cache_of fn ?st1 = cache_of fn st"
        by (rule call_other_cache)
      with True ih c other show ?thesis by simp
    qed
  qed
qed

text \<open>
  C9, amended: each listing keeps its cache only once it is not empty. At any point of a
  run of the process, a call of a listing function returns the first list that was not
  empty among those the engine's factory listed at the earlier calls of that function,
  with its count; when there was none, the cache is still empty and the call returns what
  the factory lists now. So when a call has returned a list that is not empty, every
  later call of that function returns exactly that count and list, whatever the factory
  lists by then and whatever calls of the four functions lie in between.
\<close>

theorem registry_returns_first_nonempty_listing:
  "fst (call_listing fn factory (run_listings before initial_statics)) =
     (if observed fn before = []
      then (size_to_int (length (engine_list fn factory)), engine_list fn factory)
      else (size_to_int (length (observed fn before)), observed fn before))
   \<and> (call_listing fn factory (run_listings before initial_statics) = (r, st1) \<and> snd r \<noteq> []
        \<longrightarrow> fst (call_listing fn factory2 (run_listings between st1)) = r)"
proof -
  let ?st0 = "run_listings before initial_statics"
  have inv0: "in_step ?st0"
    by (simp add: in_step_run in_step_initial)
  have "cache_of fn initial_statics = []"
    by (cases fn) (simp_all add: cache_of_def initial_statics_def)
  then have cache0: "cache_of fn ?st0 = observed fn before"
    using cache_after_run [OF in_step_initial, of fn before] by simp
  have a: "fst (call_listing fn factory ?st0) =
     (if observed fn before = []
      then (size_to_int (length (engine_list fn factory)), engine_list fn factory)
      else (size_to_int (length (observed fn before)), observed fn before))"
  proof (cases "observed fn before = []")
    case True
    then show ?thesis
      using call_empty(1) [OF inv0, of fn factory] cache0
      by (metis fst_conv)
  next
    case False
    then show ?thesis
      using call_cached [OF inv0, of fn factory] cache0 by simp
  qed
  have b: "call_listing fn factory ?st0 = (r, st1) \<and> snd r \<noteq> []
        \<longrightarrow> fst (call_listing fn factory2 (run_listings between st1)) = r"
    using fixed_once_nonempty by blast
  from a b show ?thesis ..
qed

text \<open>A run on a process that starts with an engine listing nothing: the first call of the
  metrics listing returns the empty list, the second call, after the engine registered
  L2, returns L2, and the third call, after one more registration, still returns L2.\<close>

theorem registry_returns_first_nonempty_listing_witness:
  "fst (call_listing Metrics factory_l2
         (run_listings [(Metrics, factory_empty)] initial_statics)) = (1, [''L2''])
   \<and> fst (call_listing Metrics factory_more
         (run_listings [(Metrics, factory_empty), (Metrics, factory_l2), (Builders, factory_more)]
            initial_statics)) = (1, [''L2''])
   \<and> fst (call_listing Builders factory_more
         (run_listings [(Metrics, factory_l2)] initial_statics)) = (2, [''Hnsw'', ''Flat''])"
proof -
  have e: "engine_list Metrics factory_empty = []" "engine_list Metrics factory_l2 = [''L2'']"
    "engine_list Builders factory_more = [''Hnsw'', ''Flat'']"
    by (simp_all add: engine_list_def factory_empty_def factory_l2_def factory_more_def)
  have a: "fst (call_listing Metrics factory_l2
         (run_listings [(Metrics, factory_empty)] initial_statics)) = (1, [''L2''])"
    using registry_returns_first_nonempty_listing
      [of Metrics factory_l2 "[(Metrics, factory_empty)]", THEN conjunct1]
    by (simp add: e size_to_int_def)
  have b: "fst (call_listing Metrics factory_more
         (run_listings [(Metrics, factory_empty), (Metrics, factory_l2), (Builders, factory_more)]
            initial_statics)) = (1, [''L2''])"
    using registry_returns_first_nonempty_listing
      [of Metrics factory_more
        "[(Metrics, factory_empty), (Metrics, factory_l2), (Builders, factory_more)]",
        THEN conjunct1]
    by (simp add: e size_to_int_def)
  have c: "fst (call_listing Builders factory_more
         (run_listings [(Metrics, factory_l2)] initial_statics)) = (2, [''Hnsw'', ''Flat''])"
    using registry_returns_first_nonempty_listing
      [of Builders factory_more "[(Metrics, factory_l2)]", THEN conjunct1]
    by (simp add: e size_to_int_def)
  from a b c show ?thesis
    by (intro conjI)
qed

text \<open>The first call finds the engine's list empty and returns it; the second call, after the
  engine registered a metric, returns another list.\<close>

theorem registry_empty_first_answer_counterexample:
  "fst (call_listing Metrics factory_empty initial_statics) = (0, [])
   \<and> fst (call_listing Metrics factory_l2
            (snd (call_listing Metrics factory_empty initial_statics))) = (1, [''L2''])"
  by (simp add: call_listing_def zvec_list_registered_metrics_def initial_statics_def
      factory_l2_def factory_empty_def size_to_int_def)

subsection \<open>Out-parameters\<close>

lemma report_untouched:
  "report result out_results = (s, out) \<Longrightarrow> code s \<noteq> ZVEC_STATUS_OK \<Longrightarrow> out = out_results"
  by (auto simp: report_def ok_status_def split: sum.splits)

lemma write_docs_untouched:
  "write_docs method call h c docs n out_results = Ret (s, out, calls) \<Longrightarrow>
   code s \<noteq> ZVEC_STATUS_OK \<Longrightarrow> out = out_results"
  by (auto simp: write_docs_def invalid_argument_def dest: report_untouched
      split: if_splits outcome.splits prod.splits)

lemma delete_untouched:
  "zvec_collection_delete c pks n out_results = Ret (s, out, calls) \<Longrightarrow>
   code s \<noteq> ZVEC_STATUS_OK \<Longrightarrow> out = out_results"
  by (auto simp: zvec_collection_delete_def invalid_argument_def dest: report_untouched
      split: if_splits outcome.splits prod.splits)

lemma fetch_untouched:
  "zvec_collection_fetch h c pks n out_map = Ret (s, out, h', calls) \<Longrightarrow>
   code s \<noteq> ZVEC_STATUS_OK \<Longrightarrow> out = out_map"
  by (auto simp: zvec_collection_fetch_def ok_status_def
      split: if_splits outcome.splits prod.splits sum.splits)

lemma accessors_untouched:
  "code (fst (zvec_collection_path c out_path)) \<noteq> ZVEC_STATUS_OK \<Longrightarrow>
     fst (snd (zvec_collection_path c out_path)) = out_path"
  "code (fst (zvec_collection_schema c out_schema)) \<noteq> ZVEC_STATUS_OK \<Longrightarrow>
     fst (snd (zvec_collection_schema c out_schema)) = out_schema"
  "code (fst (zvec_collection_options c out_options)) \<noteq> ZVEC_STATUS_OK \<Longrightarrow>
     fst (snd (zvec_collection_options c out_options)) = out_options"
  "code (fst (zvec_collection_stats c out_stats)) \<noteq> ZVEC_STATUS_OK \<Longrightarrow>
     fst (snd (zvec_collection_stats c out_stats)) = out_stats"
  by (auto simp: zvec_collection_path_def zvec_collection_schema_def zvec_collection_options_def
      zvec_collection_stats_def ok_status_def split: if_splits sum.splits)

lemma queries_untouched:
  "code (fst (zvec_collection_query h c q out_list)) \<noteq> ZVEC_STATUS_OK \<Longrightarrow>
     fst (snd (zvec_collection_query h c q out_list)) = out_list"
  "code (fst (zvec_collection_group_by_query h c gq out_groups)) \<noteq> ZVEC_STATUS_OK \<Longrightarrow>
     fst (snd (zvec_collection_group_by_query h c gq out_groups)) = out_groups"
  by (auto simp: zvec_collection_query_def zvec_collection_group_by_query_def ok_status_def
      split: if_splits sum.splits prod.splits)

text \<open>
  C8: for each function of \<^verbatim>\<open>collection.cpp\<close> that returns a status and has an
  out-parameter (path, schema, options, stats, query, group-by query, fetch and the four
  batch writers), when the returned code is not OK the cell of the out-parameter holds
  after the call what it held before: the function writes it only on the path that
  returns OK.
\<close>

theorem out_parameter_untouched_unless_ok:
  "(code (fst (zvec_collection_path c out_path)) \<noteq> ZVEC_STATUS_OK \<longrightarrow>
      fst (snd (zvec_collection_path c out_path)) = out_path)
   \<and> (code (fst (zvec_collection_schema c out_schema)) \<noteq> ZVEC_STATUS_OK \<longrightarrow>
      fst (snd (zvec_collection_schema c out_schema)) = out_schema)
   \<and> (code (fst (zvec_collection_options c out_options)) \<noteq> ZVEC_STATUS_OK \<longrightarrow>
      fst (snd (zvec_collection_options c out_options)) = out_options)
   \<and> (code (fst (zvec_collection_stats c out_stats)) \<noteq> ZVEC_STATUS_OK \<longrightarrow>
      fst (snd (zvec_collection_stats c out_stats)) = out_stats)
   \<and> (code (fst (zvec_collection_query h c q out_list)) \<noteq> ZVEC_STATUS_OK \<longrightarrow>
      fst (snd (zvec_collection_query h c q out_list)) = out_list)
   \<and> (code (fst (zvec_collection_group_by_query h c gq out_groups)) \<noteq> ZVEC_STATUS_OK \<longrightarrow>
      fst (snd (zvec_collection_group_by_query h c gq out_groups)) = out_groups)
   \<and> (zvec_collection_fetch h c pks n out_map = Ret (s1, out1, h1, calls1)
        \<and> code s1 \<noteq> ZVEC_STATUS_OK \<longrightarrow> out1 = out_map)
   \<and> (zvec_collection_insert h c docs n out_results = Ret (s2, out2, calls2)
        \<and> code s2 \<noteq> ZVEC_STATUS_OK \<longrightarrow> out2 = out_results)
   \<and> (zvec_collection_upsert h c docs n out_results = Ret (s3, out3, calls3)
        \<and> code s3 \<noteq> ZVEC_STATUS_OK \<longrightarrow> out3 = out_results)
   \<and> (zvec_collection_update h c docs n out_results = Ret (s4, out4, calls4)
        \<and> code s4 \<noteq> ZVEC_STATUS_OK \<longrightarrow> out4 = out_results)
   \<and> (zvec_collection_delete c pks n out_results = Ret (s5, out5, calls5)
        \<and> code s5 \<noteq> ZVEC_STATUS_OK \<longrightarrow> out5 = out_results)"
  using accessors_untouched [of c] queries_untouched [of h c]
    fetch_untouched [of h c pks n out_map s1 out1 h1 calls1]
    write_docs_untouched [of Insert Call_Insert h c docs n out_results s2 out2 calls2]
    write_docs_untouched [of Upsert Call_Upsert h c docs n out_results s3 out3 calls3]
    write_docs_untouched [of Update Call_Update h c docs n out_results s4 out4 calls4]
    delete_untouched [of c pks n out_results s5 out5 calls5]
  unfolding zvec_collection_insert_def zvec_collection_upsert_def zvec_collection_update_def
  by blast

text \<open>The sample engine has no statistics: the call returns the engine's code 5 and the
  caller's null pointer is still in the cell.\<close>

theorem out_parameter_untouched_unless_ok_witness:
  "code (fst (zvec_collection_stats (Some sample_collection) (Some None))) = 5
   \<and> fst (snd (zvec_collection_stats (Some sample_collection) (Some None))) = Some None"
proof -
  have c: "code (fst (zvec_collection_stats (Some sample_collection) (Some None))) = 5"
    by (simp add: zvec_collection_stats_def sample_collection_def sample_engine_def
        to_c_status_def)
  then have ne: "code (fst (zvec_collection_stats (Some sample_collection) (Some None)))
      \<noteq> ZVEC_STATUS_OK"
    by (simp add: ZVEC_STATUS_OK_def)
  have "fst (snd (zvec_collection_stats (Some sample_collection) (Some None))) = Some None"
    by (rule out_parameter_untouched_unless_ok [THEN conjunct2, THEN conjunct2, THEN conjunct2,
          THEN conjunct1, THEN mp, OF ne])
  with c show ?thesis by simp
qed

subsection \<open>Ownership of returned documents\<close>

lemma new_handles_spec:
  "new_handles own ds h = (hs, h') \<Longrightarrow>
     hs = map Some [fresh h ..< fresh h + length ds]
     \<and> fresh h' = fresh h + length ds
     \<and> (\<forall>i < length ds. live h' (fresh h + i) = Some \<lparr>ptr = ds ! i, owned = own\<rparr>)
     \<and> (\<forall>a < fresh h. live h' a = live h a)"
proof (induction ds arbitrary: h hs h')
  case Nil
  then show ?case by simp
next
  case (Cons d ds)
  let ?h1 = "h\<lparr>live := (live h)(fresh h \<mapsto> \<lparr>ptr = d, owned = own\<rparr>), fresh := Suc (fresh h)\<rparr>"
  obtain hs2 h2 where rec: "new_handles own ds ?h1 = (hs2, h2)"
    by (cases "new_handles own ds ?h1")
  from Cons.prems rec have hs: "hs = Some (fresh h) # hs2" and h': "h' = h2"
    by (simp_all add: new_zvec_doc_def)
  from Cons.IH [OF rec]
  have ih1: "hs2 = map Some [Suc (fresh h) ..< Suc (fresh h) + length ds]"
    and ih2: "fresh h2 = Suc (fresh h) + length ds"
    and ih3: "\<forall>i < length ds. live h2 (Suc (fresh h) + i) = Some \<lparr>ptr = ds ! i, owned = own\<rparr>"
    and ih4: "\<forall>a < Suc (fresh h). live h2 a = live ?h1 a"
    by simp_all
  have "[fresh h ..< fresh h + length (d # ds)] =
      fresh h # [Suc (fresh h) ..< fresh h + length (d # ds)]"
    by (rule upt_conv_Cons) simp
  then have a: "hs = map Some [fresh h ..< fresh h + length (d # ds)]"
    using hs ih1 by (simp del: upt_Suc)
  have b: "fresh h' = fresh h + length (d # ds)"
    using h' ih2 by simp
  have c: "\<forall>i < length (d # ds). live h' (fresh h + i) = Some \<lparr>ptr = (d # ds) ! i, owned = own\<rparr>"
  proof (intro allI impI)
    fix i assume i: "i < length (d # ds)"
    show "live h' (fresh h + i) = Some \<lparr>ptr = (d # ds) ! i, owned = own\<rparr>"
    proof (cases i)
      case 0
      then show ?thesis using ih4 h' by simp
    next
      case (Suc j)
      then show ?thesis using ih3 i h' by simp
    qed
  qed
  have d: "\<forall>a < fresh h. live h' a = live h a"
    using ih4 h' by simp
  from a b c d show ?case by blast
qed

text \<open>
  C2, amended: after a successful \<^verbatim>\<open>zvec_collection_fetch\<close> every handle of the returned map
  is a fresh handle whose ownership flag is \<^verbatim>\<open>false\<close> and whose pointer is the engine's shared
  pointer for that key, not a copy: the handles are borrowed, as those of
  \<^verbatim>\<open>zvec_collection_query\<close> are, while \<^verbatim>\<open>zvec_collection_group_by_query\<close> returns copies flagged
  \<^verbatim>\<open>owned\<close>. \<^verbatim>\<open>zvec_doc_free\<close> on such a handle returns and leaves the heap as it is.
\<close>

theorem fetch_returns_borrowed_handles:
  assumes "0 < count" and "count \<le> length pks" and "take count pks = map Some keys"
    and "coll_ptr c = Some engine" and "Fetch engine keys = Inr doc_map"
    and "h' = snd (new_handles False (map snd doc_map) h)"
  shows "zvec_collection_fetch h (Some c) (Some pks) count (Some out0) =
           Ret (ok_status,
                Some \<lparr>dm_keys = Some (map (Some \<circ> fst) doc_map),
                      dm_docs = Some (map Some [fresh h ..< fresh h + length doc_map]),
                      dm_count = length doc_map\<rparr>,
                h', [Call_Fetch keys])
         \<and> (\<forall>i < length doc_map.
               live h' (fresh h + i) = Some \<lparr>ptr = snd (doc_map ! i), owned = False\<rparr>
               \<and> zvec_doc_free h' (Some (fresh h + i)) = Ret h')"
proof -
  obtain hs where nh: "new_handles False (map snd doc_map) h = (hs, h')"
    using assms(6) by (cases "new_handles False (map snd doc_map) h") simp
  from new_handles_spec [OF nh]
  have hs: "hs = map Some [fresh h ..< fresh h + length doc_map]"
    and lv: "\<forall>i < length doc_map. live h' (fresh h + i) = Some \<lparr>ptr = snd (doc_map ! i), owned = False\<rparr>"
    by simp_all
  have call: "zvec_collection_fetch h (Some c) (Some pks) count (Some out0) =
           Ret (ok_status,
                Some \<lparr>dm_keys = Some (map (Some \<circ> fst) doc_map),
                      dm_docs = Some (map Some [fresh h ..< fresh h + length doc_map]),
                      dm_count = length doc_map\<rparr>,
                h', [Call_Fetch keys])"
    using assms(1-5) nh hs
    by (simp add: zvec_collection_fetch_def read_array_def cstrings_Some)
  have free: "\<forall>i < length doc_map. zvec_doc_free h' (Some (fresh h + i)) = Ret h'"
    using lv by (simp add: zvec_doc_free_def)
  from call lv free show ?thesis by simp
qed

theorem fetch_returns_borrowed_handles_witness:
  "zvec_collection_fetch sample_heap (Some sample_collection) (Some [Some ''k1'', Some ''k9'']) 2
       (Some \<lparr>dm_keys = None, dm_docs = None, dm_count = 0\<rparr>) =
     Ret (ok_status,
          Some \<lparr>dm_keys = Some [Some ''k1''], dm_docs = Some [Some 1], dm_count = 1\<rparr>,
          queried_heap, [Call_Fetch [''k1'', ''k9'']])
   \<and> live queried_heap 1 = Some \<lparr>ptr = Some sample_doc, owned = False\<rparr>
   \<and> zvec_doc_free queried_heap (Some 1) = Ret queried_heap"
proof -
  let ?pks = "[Some ''k1'', Some ''k9'']"
  have h1: "(0::nat) < 2" and h2: "2 \<le> length ?pks"
    and h3: "take 2 ?pks = map Some [''k1'', ''k9'']"
    by simp_all
  have h4: "coll_ptr sample_collection = Some sample_engine"
    by (simp add: sample_collection_def)
  have h5: "Fetch sample_engine [''k1'', ''k9''] = Inr [(''k1'', Some sample_doc)]"
    by (simp add: sample_engine_def)
  have h6: "queried_heap = snd (new_handles False (map snd [(''k1'', Some sample_doc)]) sample_heap)"
    by (simp add: queried_heap_def sample_heap_def new_zvec_doc_def)
  have f: "fresh sample_heap = 1"
    by (simp add: sample_heap_def)
  note t = fetch_returns_borrowed_handles [OF h1 h2 h3 h4 h5 h6,
      of "\<lparr>dm_keys = None, dm_docs = None, dm_count = 0\<rparr>"]
  have a: "zvec_collection_fetch sample_heap (Some sample_collection) (Some ?pks) 2
       (Some \<lparr>dm_keys = None, dm_docs = None, dm_count = 0\<rparr>) =
     Ret (ok_status,
          Some \<lparr>dm_keys = Some [Some ''k1''], dm_docs = Some [Some 1], dm_count = 1\<rparr>,
          queried_heap, [Call_Fetch [''k1'', ''k9'']])"
    using t [THEN conjunct1] by (simp add: f)
  have b: "live queried_heap 1 = Some \<lparr>ptr = Some sample_doc, owned = False\<rparr>
      \<and> zvec_doc_free queried_heap (Some 1) = Ret queried_heap"
    using t [THEN conjunct2, THEN spec, of 0] by (simp add: f)
  from a b show ?thesis by simp
qed

text \<open>A fetch of one key and a group-by query on the sample collection: the handle made by
  the fetch has \<^verbatim>\<open>owned = false\<close>, the one made by the group-by query \<^verbatim>\<open>owned = true\<close>.\<close>

theorem fetch_handle_not_owned_counterexample:
  "zvec_collection_fetch sample_heap (Some sample_collection) (Some [Some ''k1'']) 1
       (Some \<lparr>dm_keys = None, dm_docs = None, dm_count = 0\<rparr>) =
     Ret (ok_status,
          Some \<lparr>dm_keys = Some [Some ''k1''], dm_docs = Some [Some 1], dm_count = 1\<rparr>,
          \<lparr>live = [0 \<mapsto> \<lparr>ptr = Some sample_doc, owned = True\<rparr>,
                    1 \<mapsto> \<lparr>ptr = Some sample_doc, owned = False\<rparr>],
            fresh = 2\<rparr>,
          [Call_Fetch [''k1'']])
   \<and> zvec_collection_group_by_query sample_heap (Some sample_collection) (Some sample_group_query)
       (Some \<lparr>grs_groups = None, grs_count = 0\<rparr>) =
     (ok_status,
      Some \<lparr>grs_groups = Some [\<lparr>gr_group_by_value = Some ''g'',
                                 gr_docs = \<lparr>dl_docs = Some [Some 1], dl_count = 1\<rparr>\<rparr>],
            grs_count = 1\<rparr>,
      \<lparr>live = [0 \<mapsto> \<lparr>ptr = Some sample_doc, owned = True\<rparr>,
                1 \<mapsto> \<lparr>ptr = Some sample_doc, owned = True\<rparr>],
        fresh = 2\<rparr>,
      [Call_GroupByQuery (gquery sample_group_query)])"
  by (simp add: zvec_collection_fetch_def zvec_collection_group_by_query_def read_array_def
      new_zvec_doc_def sample_collection_def sample_engine_def sample_heap_def)

lemma free_docs_keeps:
  "free_docs h ds = Ret h' \<Longrightarrow>
     dom (live h') = dom (live h) \<and> fresh h' = fresh h
     \<and> (\<forall>a w. live h a = Some w \<longrightarrow> (\<exists>w'. live h' a = Some w' \<and> ptr w' = ptr w))"
proof (induction h ds arbitrary: h' rule: free_docs.induct)
  case (1 h)
  then show ?case by simp
next
  case (2 h ds)
  then show ?case by simp
next
  case (3 h a ds)
  from "3.prems" obtain w where w: "live h a = Some w"
    by (cases "live h a") simp_all
  let ?h1 = "store h a (w\<lparr>owned := False\<rparr>)"
  have fr: "zvec_doc_free ?h1 (Some a) = Ret ?h1"
    by (simp add: zvec_doc_free_def store_def)
  with "3.prems" w have rec: "free_docs ?h1 ds = Ret h'"
    by simp
  from "3.IH" [OF w fr rec]
  have ih: "dom (live h') = dom (live ?h1)" "fresh h' = fresh ?h1"
    "\<forall>b v. live ?h1 b = Some v \<longrightarrow> (\<exists>w'. live h' b = Some w' \<and> ptr w' = ptr v)"
    by blast+
  have d: "dom (live ?h1) = dom (live h)"
    using w by (auto simp: store_def)
  have p: "\<forall>b v. live h b = Some v \<longrightarrow> (\<exists>v'. live ?h1 b = Some v' \<and> ptr v' = ptr v)"
    using w by (auto simp: store_def)
  have f: "fresh ?h1 = fresh h"
    by (simp add: store_def)
  have "\<forall>b v. live h b = Some v \<longrightarrow> (\<exists>w'. live h' b = Some w' \<and> ptr w' = ptr v)"
    using ih(3) p by metis
  then show ?case
    using ih(1,2) d f by simp
qed

text \<open>
  C3, as the code behaves: \<^verbatim>\<open>zvec_doc_list_free\<close> sets \<^verbatim>\<open>owned = false\<close> on each handle and then
  calls \<^verbatim>\<open>zvec_doc_free\<close>, which deletes owned handles only. When the call returns, the
  array is freed and the structure reset, and the documents behind the handles are
  untouched, but every handle that was live is still live: no handle is freed.
\<close>

theorem doc_list_free_deletes_no_handle:
  assumes "zvec_doc_list_free h (Some l) = Ret (h', l')"
  shows "l' = Some \<lparr>dl_docs = None, dl_count = 0\<rparr>
         \<and> dom (live h') = dom (live h)
         \<and> (\<forall>a w. live h a = Some w \<longrightarrow> (\<exists>w'. live h' a = Some w' \<and> ptr w' = ptr w))"
  using assms
  by (auto simp: zvec_doc_list_free_def split: outcome.splits dest!: free_docs_keeps)

text \<open>The list returned by a query on the sample collection, then freed: the heap is the
  same before and after, with the handle at address 1 still allocated.\<close>

theorem doc_list_free_deletes_no_handle_witness:
  "zvec_collection_query sample_heap (Some sample_collection) (Some sample_query)
       (Some \<lparr>dl_docs = None, dl_count = 0\<rparr>) =
     (ok_status, Some \<lparr>dl_docs = Some [Some 1], dl_count = 1\<rparr>, queried_heap,
      [Call_Query (query sample_query)])
   \<and> zvec_doc_list_free queried_heap (Some \<lparr>dl_docs = Some [Some 1], dl_count = 1\<rparr>) =
       Ret (queried_heap, Some \<lparr>dl_docs = None, dl_count = 0\<rparr>)
   \<and> dom (live queried_heap) = {0, 1}"
proof -
  have q: "zvec_collection_query sample_heap (Some sample_collection) (Some sample_query)
       (Some \<lparr>dl_docs = None, dl_count = 0\<rparr>) =
     (ok_status, Some \<lparr>dl_docs = Some [Some 1], dl_count = 1\<rparr>, queried_heap,
      [Call_Query (query sample_query)])"
    by (simp add: zvec_collection_query_def new_zvec_doc_def sample_collection_def
        sample_engine_def sample_heap_def queried_heap_def)
  have l1: "live queried_heap (Suc 0) = Some \<lparr>ptr = Some sample_doc, owned = False\<rparr>"
    by (simp add: queried_heap_def)
  have st: "store queried_heap (Suc 0) \<lparr>ptr = Some sample_doc, owned = False\<rparr> = queried_heap"
    by (simp add: store_def queried_heap_def)
  have f: "zvec_doc_list_free queried_heap (Some \<lparr>dl_docs = Some [Some 1], dl_count = 1\<rparr>) =
       Ret (queried_heap, Some \<lparr>dl_docs = None, dl_count = 0\<rparr>)"
    by (simp add: zvec_doc_list_free_def read_handles_def read_array_def l1 st zvec_doc_free_def)
  have d: "dom (live queried_heap) = {0, 1}"
    using doc_list_free_deletes_no_handle [OF f] by (auto simp: queried_heap_def)
  from q f d show ?thesis by simp
qed

subsection \<open>Setting and reading fields\<close>































end
